theory Spec2Isabelle
  imports Main
begin

section \<open>omero-mkngff: the sql and symlink operations of the plugin\<close>

text \<open>
  A shallow embedding of \<^verbatim>\<open>src/omero_mkngff/__init__.py\<close>: the recursive walk over the
  Zarr container, the row construction of the \<^verbatim>\<open>sql\<close> operation, the rendering of the
  script and the creation of the symlink in the managed repository.

  What the plugin prints with \<^verbatim>\<open>ctx.out\<close> is a list of strings, one per call; the
  diagnostics of \<^verbatim>\<open>ctx.err\<close> are left out. \<^verbatim>\<open>ctx.die\<close> raises (as the command line
  context of OMERO does), so every \<^verbatim>\<open>die\<close>, like every Python exception, is an error
  value that ends the run.
\<close>

subsection \<open>Strings\<close>

definition SUFFIX :: string where
  "SUFFIX = ''mkngff''"

text \<open>The single quote and the line feed, which a string literal cannot hold.\<close>

definition sq :: string where
  "sq = [CHR 0x27]"

definition nl :: string where
  "nl = [CHR 0x0A]"

text \<open>\<^verbatim>\<open>s.startswith(t)\<close> and \<^verbatim>\<open>s.endswith(t)\<close>.\<close>

definition startswith :: "string \<Rightarrow> string \<Rightarrow> bool" where
  "startswith s t = (take (length t) s = t)"

definition endswith :: "string \<Rightarrow> string \<Rightarrow> bool" where
  "endswith s t = (length t \<le> length s \<and> drop (length s - length t) s = t)"

text \<open>
  \<^verbatim>\<open>s.replace(old, new)\<close>: the occurrences of \<open>old\<close> are found from the left and do
  not overlap; an empty \<open>old\<close> matches before every character and at the end.
\<close>

function replace_scan :: "string \<Rightarrow> string \<Rightarrow> string \<Rightarrow> string" where
  "replace_scan s old new =
     (if s = [] \<or> old = [] then s
      else if startswith s old then new @ replace_scan (drop (length old) s) old new
      else hd s # replace_scan (tl s) old new)"
  by pat_completeness auto
termination
  by (relation "measure (\<lambda>(s, old, new). length s)") auto

definition replace :: "string \<Rightarrow> string \<Rightarrow> string \<Rightarrow> string" where
  "replace s old new =
     (if old = [] then new @ concat (map (\<lambda>c. c # new) s) else replace_scan s old new)"

text \<open>\<^verbatim>\<open>s.split(c)\<close> for a one-character separator.\<close>

fun split_on :: "char \<Rightarrow> string \<Rightarrow> string list" where
  "split_on c [] = [[]]"
| "split_on c (x # xs) =
     (if x = c then [] # split_on c xs
      else (case split_on c xs of [] \<Rightarrow> [[x]] | w # ws \<Rightarrow> (x # w) # ws))"

text \<open>\<^verbatim>\<open>sep.join(xs)\<close>.\<close>

fun join :: "string \<Rightarrow> string list \<Rightarrow> string" where
  "join sep [] = []"
| "join sep [x] = x"
| "join sep (x # y # ys) = x @ sep @ join sep (y # ys)"

text \<open>
  \<^verbatim>\<open>a, b = s.rsplit("/", 1)\<close>: the text before and after the last slash. Without a slash
  \<^verbatim>\<open>rsplit\<close> returns one element and the unpacking raises \<^verbatim>\<open>ValueError\<close>: \<open>None\<close>.
\<close>

definition rsplit_slash :: "string \<Rightarrow> (string \<times> string) option" where
  "rsplit_slash s =
     (if CHR ''/'' \<in> set s
      then Some (rev (tl (dropWhile (\<lambda>c. c \<noteq> CHR ''/'') (rev s))),
                 rev (takeWhile (\<lambda>c. c \<noteq> CHR ''/'') (rev s)))
      else None)"

text \<open>\<^verbatim>\<open>str(n)\<close> of a Python integer.\<close>

function str_nat :: "nat \<Rightarrow> string" where
  "str_nat n =
     (if n < 10 then [''0123456789'' ! n]
      else str_nat (n div 10) @ [''0123456789'' ! (n mod 10)])"
  by pat_completeness auto
termination
  by (relation "measure id") auto

definition str_int :: "int \<Rightarrow> string" where
  "str_int i = (if i < 0 then CHR ''-'' # str_nat (nat (- i)) else str_nat (nat i))"

subsection \<open>Paths of \<^verbatim>\<open>pathlib\<close> and of \<^verbatim>\<open>os.path\<close>\<close>

text \<open>
  A \<^verbatim>\<open>pathlib.Path\<close> on POSIX: the root (\<^verbatim>\<open>""\<close>, \<^verbatim>\<open>"/"\<close> or \<^verbatim>\<open>"//"\<close>) and the
  components, with empty components and \<^verbatim>\<open>"."\<close> dropped when the path is parsed.
\<close>

datatype path = Path (anchor: string) (parts: "string list")

definition path_root :: "string \<Rightarrow> string" where
  "path_root s =
     (if startswith s ''//'' \<and> \<not> startswith s ''///'' then ''//''
      else if startswith s ''/'' then ''/''
      else [])"

definition path_parts :: "string \<Rightarrow> string list" where
  "path_parts s = filter (\<lambda>c. c \<noteq> [] \<and> c \<noteq> ''.'') (split_on CHR ''/'' s)"

definition path_of :: "string \<Rightarrow> path" where
  "path_of s = Path (path_root s) (path_parts s)"

definition str_path :: "path \<Rightarrow> string" where
  "str_path p =
     (if anchor p = [] \<and> parts p = [] then ''.'' else anchor p @ join ''/'' (parts p))"

definition parent :: "path \<Rightarrow> path" where
  "parent p = Path (anchor p) (butlast (parts p))"

definition name :: "path \<Rightarrow> string" where
  "name p = (if parts p = [] then [] else last (parts p))"

text \<open>\<^verbatim>\<open>path / n\<close> for the name \<open>n\<close> of a directory entry (one component).\<close>

definition child :: "path \<Rightarrow> string \<Rightarrow> path" where
  "child p n = Path (anchor p) (parts p @ [n])"

text \<open>\<^verbatim>\<open>os.path.join(a, b)\<close>.\<close>

definition os_path_join :: "string \<Rightarrow> string \<Rightarrow> string" where
  "os_path_join a b =
     (if startswith b ''/'' then b
      else if a = [] \<or> endswith a ''/'' then a @ b
      else a @ ''/'' @ b)"

subsection \<open>The file system\<close>

text \<open>
  A file system is a tree of regular files, symbolic links and directories; a directory
  lists its entries in the order in which \<^verbatim>\<open>iterdir\<close> yields them. A relative path is
  resolved from the working directory \<open>cwd\<close>.

  The model resolves a path component by component, without following symbolic links
  and without interpreting \<^verbatim>\<open>..\<close>: a link is a leaf that holds its target text, and
  \<^verbatim>\<open>stat\<close> on it fails as on a dangling link. Permissions and I/O errors are left out.
\<close>

datatype node = File | Link string | Dir "(string \<times> node) list"

record filesystem =
  root :: node
  cwd :: "string list"

datatype error =
    Die nat
  | ValueError
  | TypeError
  | FileNotFoundError
  | FileExistsError
  | NotADirectoryError

fun lookup :: "node \<Rightarrow> string list \<Rightarrow> node option" where
  "lookup n [] = Some n"
| "lookup (Dir cs) (c # p) = (case map_of cs c of None \<Rightarrow> None | Some n \<Rightarrow> lookup n p)"
| "lookup File (c # p) = None"
| "lookup (Link t) (c # p) = None"

definition os_parts :: "filesystem \<Rightarrow> string \<Rightarrow> string list" where
  "os_parts fs s = (if startswith s ''/'' then [] else cwd fs) @ path_parts s"

text \<open>\<^verbatim>\<open>lstat\<close>: the node at a path; the empty path names nothing.\<close>

definition lstat :: "filesystem \<Rightarrow> string \<Rightarrow> node option" where
  "lstat fs s = (if s = [] then None else lookup (root fs) (os_parts fs s))"

text \<open>\<^verbatim>\<open>os.path.exists\<close>, \<^verbatim>\<open>Path.exists\<close> and \<^verbatim>\<open>os.path.isdir\<close>, \<^verbatim>\<open>Path.is_dir\<close>.\<close>

definition os_path_exists :: "filesystem \<Rightarrow> string \<Rightarrow> bool" where
  "os_path_exists fs s =
     (case lstat fs s of Some File \<Rightarrow> True | Some (Dir cs) \<Rightarrow> True | _ \<Rightarrow> False)"

definition os_path_isdir :: "filesystem \<Rightarrow> string \<Rightarrow> bool" where
  "os_path_isdir fs s = (case lstat fs s of Some (Dir cs) \<Rightarrow> True | _ \<Rightarrow> False)"

text \<open>The entry \<open>n\<close> of a directory listing exists: \<^verbatim>\<open>(p / n).exists()\<close>.\<close>

definition entry_exists :: "(string \<times> node) list \<Rightarrow> string \<Rightarrow> bool" where
  "entry_exists cs n =
     (case map_of cs n of Some File \<Rightarrow> True | Some (Dir ds) \<Rightarrow> True | _ \<Rightarrow> False)"

text \<open>A chain of new, empty directories below a directory that is created.\<close>

fun fresh_dirs :: "string list \<Rightarrow> node" where
  "fresh_dirs [] = Dir []"
| "fresh_dirs (c # p) = Dir [(c, fresh_dirs p)]"

text \<open>Replace the node of the first entry named \<open>c\<close>.\<close>

fun set_entry :: "string \<Rightarrow> node \<Rightarrow> (string \<times> node) list \<Rightarrow> (string \<times> node) list" where
  "set_entry c n [] = []"
| "set_entry c n ((k, v) # cs) = (if k = c then (k, n) # cs else (k, v) # set_entry c n cs)"

text \<open>
  \<^verbatim>\<open>os.makedirs(name, exist_ok=True)\<close> along the components of the path: missing
  directories are created, an existing directory is left as it is, and anything else
  in the way raises.
\<close>

fun mkdirs :: "string list \<Rightarrow> node \<Rightarrow> error + node" where
  "mkdirs [] (Dir cs) = Inr (Dir cs)"
| "mkdirs [] File = Inl FileExistsError"
| "mkdirs [] (Link t) = Inl FileExistsError"
| "mkdirs (c # p) (Dir cs) =
     (case map_of cs c of
        None \<Rightarrow> Inr (Dir (cs @ [(c, fresh_dirs p)]))
      | Some n \<Rightarrow>
          (case mkdirs p n of
             Inl e \<Rightarrow> Inl e
           | Inr n' \<Rightarrow> Inr (Dir (set_entry c n' cs))))"
| "mkdirs (c # p) File = Inl NotADirectoryError"
| "mkdirs (c # p) (Link t) = Inl FileNotFoundError"

definition os_makedirs :: "filesystem \<Rightarrow> string \<Rightarrow> (error + unit) \<times> filesystem" where
  "os_makedirs fs s =
     (if s = [] then (Inl FileNotFoundError, fs)
      else (case mkdirs (os_parts fs s) (root fs) of
              Inl e \<Rightarrow> (Inl e, fs)
            | Inr r \<Rightarrow> (Inr (), fs\<lparr>root := r\<rparr>)))"

text \<open>
  \<^verbatim>\<open>os.symlink(target, source)\<close>: a new link at the path, which must not name anything
  yet and whose directory must exist.
\<close>

fun mklink :: "string \<Rightarrow> string list \<Rightarrow> node \<Rightarrow> error + node" where
  "mklink t [] n = Inl FileExistsError"
| "mklink t [c] (Dir cs) =
     (case map_of cs c of
        None \<Rightarrow> Inr (Dir (cs @ [(c, Link t)]))
      | Some n \<Rightarrow> Inl FileExistsError)"
| "mklink t (c # d # p) (Dir cs) =
     (case map_of cs c of
        None \<Rightarrow> Inl FileNotFoundError
      | Some n \<Rightarrow>
          (case mklink t (d # p) n of
             Inl e \<Rightarrow> Inl e
           | Inr n' \<Rightarrow> Inr (Dir (set_entry c n' cs))))"
| "mklink t (c # p) File = Inl NotADirectoryError"
| "mklink t (c # p) (Link u) = Inl FileNotFoundError"

text \<open>The flag \<^verbatim>\<open>target_is_directory\<close> is ignored on POSIX.\<close>

definition os_symlink ::
  "filesystem \<Rightarrow> string \<Rightarrow> string \<Rightarrow> bool \<Rightarrow> (error + unit) \<times> filesystem" where
  "os_symlink fs target source target_is_directory =
     (if target = [] \<or> source = [] then (Inl FileNotFoundError, fs)
      else (case mklink target (os_parts fs source) (root fs) of
              Inl e \<Rightarrow> (Inl e, fs)
            | Inr r \<Rightarrow> (Inr (), fs\<lparr>root := r\<rparr>)))"

subsection \<open>The walk over the container\<close>

text \<open>
  An entry that \<^verbatim>\<open>walk\<close> yields: the directory that holds it, its name and its mime
  type.
\<close>

type_synonym entry = "path \<times> string \<times> string"

text \<open>
  \<^verbatim>\<open>walk(path)\<close> over the listing of the directory \<open>path\<close>, entry by entry, with
  \<open>p = child path n\<close>. A file (here also a link) is yielded; a directory is yielded when
  it holds \<^verbatim>\<open>.zarray\<close> or \<^verbatim>\<open>.zgroup\<close>, and walked when it holds no \<^verbatim>\<open>.zarray\<close>;
  a directory with neither is skipped.
\<close>

fun walk_dir :: "path \<Rightarrow> (string \<times> node) list \<Rightarrow> entry list" where
  "walk_dir path [] = []"
| "walk_dir path ((n, File) # rest) =
     (parent (child path n), name (child path n), ''application/octet-stream'')
       # walk_dir path rest"
| "walk_dir path ((n, Link t) # rest) =
     (parent (child path n), name (child path n), ''application/octet-stream'')
       # walk_dir path rest"
| "walk_dir path ((n, Dir cs) # rest) =
     (if entry_exists cs ''.zarray'' \<or> entry_exists cs ''.zgroup''
      then (parent (child path n), name (child path n), ''Directory'')
             # (if \<not> entry_exists cs ''.zarray'' then walk_dir (child path n) cs else [])
      else [])
     @ walk_dir path rest"

text \<open>
  The call \<^verbatim>\<open>self.walk(symlink_path)\<close>: \<^verbatim>\<open>iterdir\<close> raises when the path is not a
  directory.
\<close>

definition walk :: "filesystem \<Rightarrow> path \<Rightarrow> error + entry list" where
  "walk fs path =
     (case lstat fs (str_path path) of
        Some (Dir cs) \<Rightarrow> Inr (walk_dir path cs)
      | Some File \<Rightarrow> Inl NotADirectoryError
      | _ \<Rightarrow> Inl FileNotFoundError)"

subsection \<open>The rows of the sql operation\<close>

text \<open>
  The body of the loop over the walk in \<^verbatim>\<open>sql\<close>. The state is the list \<open>rows\<close>, here
  with the three fields of each row before \<^verbatim>\<open>ROW.format\<close> renders them, and
  \<open>setid_target\<close>. \<open>common\<close> is \<^verbatim>\<open>f"{symlink_path.parent}"\<close>.
\<close>

type_synonym row = "string \<times> string \<times> string"

definition rewrite_path :: "string \<Rightarrow> path \<Rightarrow> string" where
  "rewrite_path common row_path =
     (let r = replace (str_path row_path) common [] in
      if startswith r ''/'' then drop 1 r else r)"

definition row_step ::
  "string \<Rightarrow> string \<Rightarrow> string \<Rightarrow> row list \<times> (string \<times> string) option \<Rightarrow> entry
     \<Rightarrow> row list \<times> (string \<times> string) option" where
  "row_step common prefix_path prefix_name st e =
     (case (st, e) of ((rows, setid_target), (row_path, row_name, row_mime)) \<Rightarrow>
        let row_full_path =
              prefix_path @ ''/'' @ prefix_name @ ''_'' @ SUFFIX @ ''/''
                @ rewrite_path common row_path;
            setid_target' =
              (if setid_target = None \<and> row_name = ''.zattrs'' \<or> row_name = ''METADATA.ome.xml''
               then Some (row_full_path, row_name)
               else setid_target)
        in (rows @ [(row_full_path @ ''/'', row_name, row_mime)], setid_target'))"

definition build_rows ::
  "string \<Rightarrow> string \<Rightarrow> string \<Rightarrow> entry list \<Rightarrow> row list \<times> (string \<times> string) option" where
  "build_rows common prefix_path prefix_name es =
     foldl (row_step common prefix_path prefix_name) ([], None) es"

subsection \<open>The script\<close>

text \<open>\<^verbatim>\<open>ROW.format(PATH=..., NAME=..., MIME=...)\<close>.\<close>

definition ROW :: "row \<Rightarrow> string" where
  "ROW r =
     (case r of (PATH, NAME, MIME) \<Rightarrow>
        ''          ['' @ sq @ PATH @ sq @ '', '' @ sq @ NAME @ sq @ '', '' @ sq @ MIME @ sq
          @ '']'')"

text \<open>\<^verbatim>\<open>TEMPLATE.format(OLD_FILESET=..., UUID=..., REPO=..., PREFIX=..., ROWS=...)\<close>.\<close>

definition TEMPLATE :: "int \<Rightarrow> string \<Rightarrow> string \<Rightarrow> string \<Rightarrow> string \<Rightarrow> string" where
  "TEMPLATE OLD_FILESET UUID REPO PREFIX ROWS =
     nl @ ''begin;'' @ nl
     @ ''    select mkngff_fileset('' @ nl
     @ ''      '' @ str_int OLD_FILESET @ '','' @ nl
     @ ''      '' @ sq @ UUID @ sq @ '','' @ nl
     @ ''      '' @ sq @ REPO @ sq @ '','' @ nl
     @ ''      '' @ sq @ PREFIX @ sq @ '','' @ nl
     @ ''      array['' @ nl
     @ ROWS @ nl
     @ ''      ]::text[][]'' @ nl
     @ ''    );'' @ nl
     @ ''commit;'' @ nl"

text \<open>The statement that \<^verbatim>\<open>sql\<close> prints before the template.\<close>

definition update_pixels :: "string \<Rightarrow> string \<Rightarrow> int \<Rightarrow> string" where
  "update_pixels fname fpath fileset =
     ''UPDATE pixels SET name = '' @ sq @ fname @ sq @ '', path = '' @ sq @ fpath @ sq
     @ '' where image in (select id from Image where fileset = '' @ str_int fileset @ '');''"

subsection \<open>The server\<close>

text \<open>
  What the plugin asks of the OMERO server: for a fileset id the \<^verbatim>\<open>templatePrefix\<close> of
  every fileset that the query returns, and the repositories, each with the hash of its
  description and whether it casts to a managed repository.
\<close>

record server =
  filesets :: "int \<Rightarrow> string list"
  repositories :: "(string \<times> bool) list"

definition get_prefix :: "server \<Rightarrow> int \<Rightarrow> error + string" where
  "get_prefix srv fileset =
     (let rv = filesets srv fileset in
      if length rv \<noteq> 1 then Inl (Die 400)
      else let prefix = hd rv in
           Inr (if endswith prefix ''/'' then butlast prefix else prefix))"

fun first_managed :: "(string \<times> bool) list \<Rightarrow> error + string" where
  "first_managed [] = Inl (Die 402)"
| "first_managed ((desc, is_mrepo) # repos) =
     (if is_mrepo then Inr desc else first_managed repos)"

definition get_uuid :: "server \<Rightarrow> error + string" where
  "get_uuid srv = first_managed (repositories srv)"

subsection \<open>The symlink\<close>

definition create_symlink ::
  "filesystem \<Rightarrow> string \<Rightarrow> string \<Rightarrow> path \<Rightarrow> string \<Rightarrow> (error + unit) \<times> filesystem" where
  "create_symlink fs symlink_repo prefix symlink_path symlink_target =
     (let prefix_dir = os_path_join symlink_repo prefix in
      if \<not> os_path_exists fs prefix_dir then (Inl (Die 402), fs)
      else
        let symlink_dir = prefix_dir @ ''_'' @ SUFFIX in
        (case os_makedirs fs symlink_dir of
           (Inl e, fs1) \<Rightarrow> (Inl e, fs1)
         | (Inr u, fs1) \<Rightarrow>
             let symlink_source = os_path_join symlink_dir (name symlink_path);
                 target_is_directory = os_path_isdir fs1 symlink_target
             in os_symlink fs1 symlink_target symlink_source target_is_directory))"

subsection \<open>The operations\<close>

record sql_args =
  secret :: string
  zarr_name :: "string option"
  symlink_repo :: "string option"
  fileset_id :: int
  symlink_target :: string

record symlink_args =
  sl_symlink_repo :: string
  sl_fileset_id :: int
  sl_symlink_target :: string

text \<open>
  The result of an operation: how it ended, what it printed with \<^verbatim>\<open>ctx.out\<close> (one
  string per call) and the file system it left.
\<close>

type_synonym outcome = "(error + unit) \<times> string list \<times> filesystem"

definition sql :: "server \<Rightarrow> sql_args \<Rightarrow> filesystem \<Rightarrow> outcome" where
  "sql srv args fs =
     (case get_prefix srv (fileset_id args) of
        Inl e \<Rightarrow> (Inl e, [], fs)
      | Inr prefix \<Rightarrow>
     (case rsplit_slash prefix of
        None \<Rightarrow> (Inl ValueError, [], fs)
      | Some (prefix_path, prefix_name) \<Rightarrow>
     let symlink_path = path_of (symlink_target args) in
     if \<not> os_path_exists fs (str_path symlink_path) then (Inl (Die 401), [], fs)
     else
     (case (case symlink_repo args of
              None \<Rightarrow> (Inr (), fs)
            | Some repo \<Rightarrow>
                if repo = [] then (Inr (), fs)
                else create_symlink fs repo prefix symlink_path (symlink_target args)) of
        (Inl e, fs1) \<Rightarrow> (Inl e, [], fs1)
      | (Inr u, fs1) \<Rightarrow>
     (case walk fs1 symlink_path of
        Inl e \<Rightarrow> (Inl e, [], fs1)
      | Inr es \<Rightarrow>
     (case build_rows (str_path (parent symlink_path)) prefix_path prefix_name es of
        (rows, None) \<Rightarrow> (Inl TypeError, [], fs1)
      | (rows, Some (fpath, fname)) \<Rightarrow>
     let out1 = [update_pixels fname fpath (fileset_id args)] in
     (case get_uuid srv of
        Inl e \<Rightarrow> (Inl e, out1, fs1)
      | Inr repo_uuid \<Rightarrow>
          (Inr (),
           out1 @ [TEMPLATE (fileset_id args) (secret args) repo_uuid
                     (prefix_path @ ''/'' @ prefix_name @ ''_'' @ SUFFIX @ ''/'')
                     (join ('','' @ nl) (map ROW rows))],
           fs1)))))))"

definition symlink :: "server \<Rightarrow> symlink_args \<Rightarrow> filesystem \<Rightarrow> outcome" where
  "symlink srv args fs =
     (case get_prefix srv (sl_fileset_id args) of
        Inl e \<Rightarrow> (Inl e, [], fs)
      | Inr prefix \<Rightarrow>
          (case create_symlink fs (sl_symlink_repo args) prefix
                  (path_of (sl_symlink_target args)) (sl_symlink_target args) of
             (r, fs1) \<Rightarrow> (r, [], fs1)))"

section \<open>Notions used in the properties\<close>

text \<open>What \<^verbatim>\<open>ctx.out\<close> has written to standard output: every string, then a line feed.\<close>

definition printed :: "string list \<Rightarrow> string" where
  "printed out = concat (map (\<lambda>s. s @ nl) out)"

text \<open>\<^verbatim>\<open>s.find(t)\<close>: the first position at which \<open>t\<close> stands in \<open>s\<close>.\<close>

fun find_from :: "nat \<Rightarrow> string \<Rightarrow> string \<Rightarrow> nat option" where
  "find_from i [] t = (if t = [] then Some i else None)"
| "find_from i (c # s) t = (if startswith (c # s) t then Some i else find_from (Suc i) s t)"

definition find_str :: "string \<Rightarrow> string \<Rightarrow> nat option" where
  "find_str s t = find_from 0 s t"


text \<open>Two nodes are of the same kind; two links also have the same target.\<close>

fun same_kind :: "node \<Rightarrow> node \<Rightarrow> bool" where
  "same_kind File File = True"
| "same_kind (Link t) (Link u) = (t = u)"
| "same_kind (Dir cs) (Dir ds) = True"
| "same_kind n m = False"

text \<open>The path \<open>rel\<close> below a directory.\<close>

definition extend :: "path \<Rightarrow> string list \<Rightarrow> path" where
  "extend p rel = Path (anchor p) (parts p @ rel)"

text \<open>No directory of the tree lists a name twice.\<close>

fun wf_listing :: "(string \<times> node) list \<Rightarrow> bool" where
  "wf_listing [] = True"
| "wf_listing ((n, File) # rest) = (n \<notin> fst ` set rest \<and> wf_listing rest)"
| "wf_listing ((n, Link t) # rest) = (n \<notin> fst ` set rest \<and> wf_listing rest)"
| "wf_listing ((n, Dir cs) # rest) = (n \<notin> fst ` set rest \<and> wf_listing cs \<and> wf_listing rest)"

text \<open>
  The directory at \<open>rel\<close> below the walked root is reached by the walk: it and every
  directory between the root and it hold \<^verbatim>\<open>.zgroup\<close> and no \<^verbatim>\<open>.zarray\<close>. The root
  itself, at \<open>[]\<close>, is walked whatever it holds.
\<close>

fun walked :: "(string \<times> node) list \<Rightarrow> string list \<Rightarrow> bool" where
  "walked cs [] = True"
| "walked cs (c # rel) =
     (case map_of cs c of
        Some (Dir ds) \<Rightarrow>
          entry_exists ds ''.zgroup'' \<and> \<not> entry_exists ds ''.zarray'' \<and> walked ds rel
      | _ \<Rightarrow> False)"

text \<open>
  The mime type with which the walk yields a node that it comes across; \<open>None\<close> for a
  directory that it skips.
\<close>

fun mime_of :: "node \<Rightarrow> string option" where
  "mime_of File = Some ''application/octet-stream''"
| "mime_of (Link t) = Some ''application/octet-stream''"
| "mime_of (Dir ds) =
     (if entry_exists ds ''.zarray'' \<or> entry_exists ds ''.zgroup'' then Some ''Directory''
      else None)"

text \<open>The entries of a walk that stand for the node \<open>n\<close> of the directory \<open>dir\<close>.\<close>

definition entries_for :: "entry list \<Rightarrow> path \<Rightarrow> string \<Rightarrow> entry list" where
  "entries_for es dir n = filter (\<lambda>e. fst e = dir \<and> fst (snd e) = n) es"

text \<open>
  Two ways to choose the row for \<^verbatim>\<open>setId\<close>, each giving its path without the final
  slash and its name: the first row named as a metadata descriptor, and the last row
  named \<^verbatim>\<open>METADATA.ome.xml\<close> or else the first row named \<^verbatim>\<open>.zattrs\<close>.
\<close>

definition setid_of :: "row option \<Rightarrow> (string \<times> string) option" where
  "setid_of r = (case r of None \<Rightarrow> None | Some (p, n, m) \<Rightarrow> Some (butlast p, n))"

definition first_descriptor :: "row list \<Rightarrow> (string \<times> string) option" where
  "first_descriptor rows =
     setid_of (find (\<lambda>r. fst (snd r) = ''.zattrs'' \<or> fst (snd r) = ''METADATA.ome.xml'') rows)"

definition last_xml_else_first_zattrs :: "row list \<Rightarrow> (string \<times> string) option" where
  "last_xml_else_first_zattrs rows =
     (case find (\<lambda>r. fst (snd r) = ''METADATA.ome.xml'') (rev rows) of
        Some r \<Rightarrow> setid_of (Some r)
      | None \<Rightarrow> setid_of (find (\<lambda>r. fst (snd r) = ''.zattrs'') rows))"

subsection \<open>The scenario of the specification\<close>

text \<open>
  The tree \<^verbatim>\<open>root/{a.txt, g/.zgroup, g/arr/.zarray, g/arr/0, g/arr/1}\<close> at
  \<^verbatim>\<open>/data/root\<close>, a server that knows the fileset 1 alone, and a managed repository at \<^verbatim>\<open>/repo\<close>
  with the directory \<^verbatim>\<open>base/xyz\<close>.
\<close>

definition scenario_tree :: "(string \<times> node) list" where
  "scenario_tree =
     [(''a.txt'', File),
      (''g'', Dir [(''.zgroup'', File),
                   (''arr'', Dir [(''.zarray'', File), (''0'', File), (''1'', File)])])]"

text \<open>A small image: its attributes, and the legacy metadata file below \<^verbatim>\<open>OME\<close>.\<close>

definition ngff_tree :: "(string \<times> node) list" where
  "ngff_tree =
     [(''.zattrs'', File),
      (''OME'', Dir [(''.zgroup'', File), (''METADATA.ome.xml'', File)])]"

definition fs_with :: "(string \<times> node) list \<Rightarrow> filesystem" where
  "fs_with tree =
     \<lparr>root = Dir [(''data'', Dir [(''root'', Dir tree)]),
                  (''repo'', Dir [(''base'', Dir [(''xyz'', Dir [])])])],
      cwd = []\<rparr>"

text \<open>The same file system once the mirror directory and the symlink have been made.\<close>

definition fs_mirrored :: "(string \<times> node) list \<Rightarrow> filesystem" where
  "fs_mirrored tree =
     \<lparr>root = Dir [(''data'', Dir [(''root'', Dir tree)]),
                  (''repo'', Dir [(''base'', Dir [(''xyz'', Dir []),
                     (''xyz_mkngff'', Dir [(''root'', Link ''/data/root'')])])])],
      cwd = []\<rparr>"

definition server1 :: "string \<Rightarrow> (string \<times> bool) list \<Rightarrow> server" where
  "server1 prefix repos =
     \<lparr>filesets = (\<lambda>i. if i = 1 then [prefix] else []), repositories = repos\<rparr>"

definition sql_args1 :: "string option \<Rightarrow> sql_args" where
  "sql_args1 repo =
     \<lparr>secret = ''TBD'', zarr_name = None, symlink_repo = repo, fileset_id = 1,
      symlink_target = ''/data/root''\<rparr>"

section \<open>The rows and the script of the sql operation\<close>

lemma build_rows_Nil: "build_rows common pp pn [] = ([], None)"
  by (simp add: build_rows_def)

lemma build_rows_snoc:
  "build_rows common pp pn (es @ [e]) = row_step common pp pn (build_rows common pp pn es) e"
  by (simp add: build_rows_def)

lemma row_step_eq:
  "row_step common pp pn (rows, t) (p, n, m) =
     (rows @ [((pp @ ''/'' @ pn @ ''_'' @ SUFFIX @ ''/'' @ rewrite_path common p) @ ''/'', n, m)],
      if t = None \<and> n = ''.zattrs'' \<or> n = ''METADATA.ome.xml''
      then Some (pp @ ''/'' @ pn @ ''_'' @ SUFFIX @ ''/'' @ rewrite_path common p, n)
      else t)"
  by (simp add: row_step_def Let_def)

text \<open>The loop turns every entry of the walk into one row, in the order of the walk.\<close>

lemma fst_build_rows:
  "fst (build_rows common pp pn es) =
     map (\<lambda>e. ((pp @ ''/'' @ pn @ ''_'' @ SUFFIX @ ''/'' @ rewrite_path common (fst e)) @ ''/'',
               fst (snd e), snd (snd e))) es"
proof (induction es rule: rev_induct)
  case Nil
  show ?case by (simp add: build_rows_Nil)
next
  case (snoc e es)
  obtain rows t where b: "build_rows common pp pn es = (rows, t)"
    by (cases "build_rows common pp pn es")
  obtain p n m where e: "e = (p, n, m)"
    by (cases e)
  from snoc b show ?case
    unfolding build_rows_snoc b e row_step_eq by simp
qed

lemma find_snoc:
  "find P (xs @ [x]) =
     (case find P xs of Some y \<Rightarrow> Some y | None \<Rightarrow> if P x then Some x else None)"
  by (induction xs) auto

lemma choice_snoc:
  "last_xml_else_first_zattrs (rows @ [(F @ ''/'', n, m)]) =
     (if n = ''METADATA.ome.xml'' then Some (F, n)
      else (case last_xml_else_first_zattrs rows of
              Some x \<Rightarrow> Some x
            | None \<Rightarrow> if n = ''.zattrs'' then Some (F, n) else None))"
  by (auto simp add: last_xml_else_first_zattrs_def setid_of_def find_snoc
      split: option.splits)

lemma snd_build_rows:
  "snd (build_rows common pp pn es) =
     last_xml_else_first_zattrs (fst (build_rows common pp pn es))"
proof (induction es rule: rev_induct)
  case Nil
  show ?case by (simp add: build_rows_Nil last_xml_else_first_zattrs_def setid_of_def)
next
  case (snoc e es)
  obtain rows t where b: "build_rows common pp pn es = (rows, t)"
    by (cases "build_rows common pp pn es")
  obtain p n m where e: "e = (p, n, m)"
    by (cases e)
  from snoc b have t: "t = last_xml_else_first_zattrs rows" by simp
  show ?case
    unfolding build_rows_snoc b e row_step_eq
    by (simp only: fst_conv snd_conv choice_snoc t split: option.splits) auto
qed

lemma startswith_append: "startswith (t @ s) t"
  by (simp add: startswith_def)

lemma endswith_append: "endswith (s @ t) t"
  by (simp add: endswith_def)

text \<open>The walk and the rows of the two example trees.\<close>

lemma walk_dir_scenario:
  "walk_dir (path_of ''/data/root'') scenario_tree =
     [(Path ''/'' [''data'', ''root''], ''a.txt'', ''application/octet-stream''),
      (Path ''/'' [''data'', ''root''], ''g'', ''Directory''),
      (Path ''/'' [''data'', ''root'', ''g''], ''.zgroup'', ''application/octet-stream''),
      (Path ''/'' [''data'', ''root'', ''g''], ''arr'', ''Directory'')]"
  by code_simp

lemma build_rows_scenario:
  "build_rows ''/data'' ''/base'' ''xyz'' (walk_dir (path_of ''/data/root'') scenario_tree) =
     ([(''/base/xyz_mkngff/root/'', ''a.txt'', ''application/octet-stream''),
       (''/base/xyz_mkngff/root/'', ''g'', ''Directory''),
       (''/base/xyz_mkngff/root/g/'', ''.zgroup'', ''application/octet-stream''),
       (''/base/xyz_mkngff/root/g/'', ''arr'', ''Directory'')],
      None)"
  by code_simp

lemma build_rows_ngff:
  "build_rows ''/data'' ''/base'' ''xyz'' (walk_dir (path_of ''/data/root'') ngff_tree) =
     ([(''/base/xyz_mkngff/root/'', ''.zattrs'', ''application/octet-stream''),
       (''/base/xyz_mkngff/root/'', ''OME'', ''Directory''),
       (''/base/xyz_mkngff/root/OME/'', ''.zgroup'', ''application/octet-stream''),
       (''/base/xyz_mkngff/root/OME/'', ''METADATA.ome.xml'', ''application/octet-stream'')],
      Some (''/base/xyz_mkngff/root/OME'', ''METADATA.ome.xml''))"
  by code_simp

text \<open>
  The row that the loop builds for the \<open>i\<close>-th entry of the walk keeps the name and the
  mime type of the entry; its path begins with the new prefix and ends with a slash.
\<close>

lemma build_rows_rooted:
  assumes "build_rows common prefix_path prefix_name es = (rows, t)"
    and "i < length es"
  shows "length rows = length es
     \<and> snd (rows ! i) = snd (es ! i)
     \<and> startswith (fst (rows ! i)) (prefix_path @ ''/'' @ prefix_name @ ''_mkngff/'')
     \<and> endswith (fst (rows ! i)) ''/''"
proof -
  let ?F = "\<lambda>e. (prefix_path @ ''/'' @ prefix_name @ ''_'' @ SUFFIX @ ''/''
                    @ rewrite_path common (fst e)) @ ''/''"
  from assms(1) have rows: "rows = map (\<lambda>e. (?F e, fst (snd e), snd (snd e))) es"
    using fst_build_rows [of common prefix_path prefix_name es] by simp
  have len: "length rows = length es"
    by (simp add: rows)
  have row: "rows ! i = (?F (es ! i), fst (snd (es ! i)), snd (snd (es ! i)))"
    using assms(2) by (simp add: rows)
  have "?F (es ! i) = (prefix_path @ ''/'' @ prefix_name @ ''_mkngff/'')
                        @ (rewrite_path common (fst (es ! i)) @ ''/'')"
    by (simp add: SUFFIX_def)
  then have st: "startswith (fst (rows ! i)) (prefix_path @ ''/'' @ prefix_name @ ''_mkngff/'')"
    unfolding row fst_conv by (simp only: startswith_append)
  have en: "endswith (fst (rows ! i)) ''/''"
    unfolding row fst_conv by (rule endswith_append)
  from len row st en show ?thesis
    by simp
qed

text \<open>
  C3 does not hold as stated: in the image with \<^verbatim>\<open>.zattrs\<close> at its root and
  \<^verbatim>\<open>OME/METADATA.ome.xml\<close>, the first row named as a metadata descriptor is
  \<^verbatim>\<open>.zattrs\<close>, and the loop ends with the later \<^verbatim>\<open>METADATA.ome.xml\<close> as its target.
\<close>

theorem setid_target_first_counterexample:
  "first_descriptor
     (fst (build_rows ''/data'' ''/base'' ''xyz'' (walk_dir (path_of ''/data/root'') ngff_tree)))
     = Some (''/base/xyz_mkngff/root'', ''.zattrs'')
   \<and> snd (build_rows ''/data'' ''/base'' ''xyz'' (walk_dir (path_of ''/data/root'') ngff_tree))
     = Some (''/base/xyz_mkngff/root/OME'', ''METADATA.ome.xml'')"
  unfolding build_rows_ngff by (simp add: first_descriptor_def setid_of_def)

text \<open>
  C3, amended. The target that the loop of \<^verbatim>\<open>sql\<close> ends with is the last row named
  \<^verbatim>\<open>METADATA.ome.xml\<close> when there is one, and otherwise the first row named
  \<^verbatim>\<open>.zattrs\<close>: a later \<^verbatim>\<open>.zattrs\<close> is ignored, a later \<^verbatim>\<open>METADATA.ome.xml\<close> is not.
\<close>

theorem setid_target_choice:
  assumes "build_rows common prefix_path prefix_name es = (rows, t)"
  shows "t = last_xml_else_first_zattrs rows"
  using assms snd_build_rows [of common prefix_path prefix_name es] by simp

theorem setid_target_choice_witness:
  "last_xml_else_first_zattrs
     [(''/base/xyz_mkngff/root/'', ''.zattrs'', ''application/octet-stream''),
      (''/base/xyz_mkngff/root/'', ''OME'', ''Directory''),
      (''/base/xyz_mkngff/root/OME/'', ''.zgroup'', ''application/octet-stream''),
      (''/base/xyz_mkngff/root/OME/'', ''METADATA.ome.xml'', ''application/octet-stream'')]
     = Some (''/base/xyz_mkngff/root/OME'', ''METADATA.ome.xml'')"
  using setid_target_choice [OF build_rows_ngff] by simp

text \<open>What a run of \<^verbatim>\<open>sql\<close> that ends well has gone through.\<close>

lemma sql_success:
  assumes "sql srv args fs = (Inr (), out, fs')"
  shows "\<exists>prefix prefix_path prefix_name es rows fpath fname repo_uuid.
           get_prefix srv (fileset_id args) = Inr prefix
         \<and> rsplit_slash prefix = Some (prefix_path, prefix_name)
         \<and> walk fs' (path_of (symlink_target args)) = Inr es
         \<and> build_rows (str_path (parent (path_of (symlink_target args))))
              prefix_path prefix_name es = (rows, Some (fpath, fname))
         \<and> get_uuid srv = Inr repo_uuid
         \<and> out = [update_pixels fname fpath (fileset_id args),
                   TEMPLATE (fileset_id args) (secret args) repo_uuid
                     (prefix_path @ ''/'' @ prefix_name @ ''_'' @ SUFFIX @ ''/'')
                     (join ('','' @ nl) (map ROW rows))]"
  using assms unfolding sql_def Let_def
  by (auto split: sum.splits option.splits prod.splits if_splits)

lemma sql_ngff_ok:
  "fst (sql (server1 ''/base/xyz'' [(''h1'', False), (''h2'', True)]) (sql_args1 None)
          (fs_with ngff_tree)) = Inr ()"
  by code_simp

text \<open>
  C2 does not hold as stated: a run that ends well prints the \<^verbatim>\<open>UPDATE\<close> first, at
  position 0 of its output, and \<^verbatim>\<open>begin;\<close> only after it, at position 138 here.
\<close>

theorem sql_begin_first_counterexample:
  "fst (sql (server1 ''/base/xyz'' [(''h1'', False), (''h2'', True)]) (sql_args1 None)
          (fs_with ngff_tree)) = Inr ()
   \<and> find_str
        (printed (fst (snd (sql (server1 ''/base/xyz'' [(''h1'', False), (''h2'', True)])
                              (sql_args1 None) (fs_with ngff_tree)))))
        ''UPDATE pixels'' = Some 0
   \<and> find_str
        (printed (fst (snd (sql (server1 ''/base/xyz'' [(''h1'', False), (''h2'', True)])
                              (sql_args1 None) (fs_with ngff_tree)))))
        ''begin;'' = Some 138"
  by code_simp

text \<open>The two texts that a run of \<^verbatim>\<open>sql\<close> that ends well prints, written out.\<close>

lemma sql_texts:
  assumes "sql srv args fs = (Inr (), out, fs')"
  shows "\<exists>prefix prefix_path prefix_name es rows fpath fname repo_uuid.
           get_prefix srv (fileset_id args) = Inr prefix
         \<and> rsplit_slash prefix = Some (prefix_path, prefix_name)
         \<and> walk fs' (path_of (symlink_target args)) = Inr es
         \<and> build_rows (str_path (parent (path_of (symlink_target args))))
              prefix_path prefix_name es = (rows, Some (fpath, fname))
         \<and> get_uuid srv = Inr repo_uuid
         \<and> out =
             [''UPDATE pixels SET name = '' @ sq @ fname @ sq @ '', path = '' @ sq @ fpath @ sq
                @ '' where image in (select id from Image where fileset = ''
                @ str_int (fileset_id args) @ '');'',
              nl @ ''begin;'' @ nl
                @ ''    select mkngff_fileset('' @ nl
                @ ''      '' @ str_int (fileset_id args) @ '','' @ nl
                @ ''      '' @ sq @ secret args @ sq @ '','' @ nl
                @ ''      '' @ sq @ repo_uuid @ sq @ '','' @ nl
                @ ''      '' @ sq @ prefix_path @ ''/'' @ prefix_name @ ''_mkngff/'' @ sq
                @ '','' @ nl
                @ ''      array['' @ nl
                @ join ('','' @ nl)
                    (map (\<lambda>r. ''          ['' @ sq @ fst r @ sq @ '', '' @ sq @ fst (snd r) @ sq
                               @ '', '' @ sq @ snd (snd r) @ sq @ '']'') rows)
                @ nl
                @ ''      ]::text[][]'' @ nl
                @ ''    );'' @ nl
                @ ''commit;'' @ nl]"
proof -
  have row: "ROW = (\<lambda>r. ''          ['' @ sq @ fst r @ sq @ '', '' @ sq @ fst (snd r) @ sq
                          @ '', '' @ sq @ snd (snd r) @ sq @ '']'')"
    by (rule ext) (simp add: ROW_def split: prod.splits)
  from sql_success [OF assms] obtain prefix prefix_path prefix_name es rows fpath fname repo_uuid
    where a: "get_prefix srv (fileset_id args) = Inr prefix"
      and b: "rsplit_slash prefix = Some (prefix_path, prefix_name)"
      and c: "walk fs' (path_of (symlink_target args)) = Inr es"
      and d: "build_rows (str_path (parent (path_of (symlink_target args))))
                prefix_path prefix_name es = (rows, Some (fpath, fname))"
      and e: "get_uuid srv = Inr repo_uuid"
      and f: "out = [update_pixels fname fpath (fileset_id args),
                     TEMPLATE (fileset_id args) (secret args) repo_uuid
                       (prefix_path @ ''/'' @ prefix_name @ ''_'' @ SUFFIX @ ''/'')
                       (join ('','' @ nl) (map ROW rows))]"
    by blast
  have g: "out =
             [''UPDATE pixels SET name = '' @ sq @ fname @ sq @ '', path = '' @ sq @ fpath @ sq
                @ '' where image in (select id from Image where fileset = ''
                @ str_int (fileset_id args) @ '');'',
              nl @ ''begin;'' @ nl
                @ ''    select mkngff_fileset('' @ nl
                @ ''      '' @ str_int (fileset_id args) @ '','' @ nl
                @ ''      '' @ sq @ secret args @ sq @ '','' @ nl
                @ ''      '' @ sq @ repo_uuid @ sq @ '','' @ nl
                @ ''      '' @ sq @ prefix_path @ ''/'' @ prefix_name @ ''_mkngff/'' @ sq
                @ '','' @ nl
                @ ''      array['' @ nl
                @ join ('','' @ nl)
                    (map (\<lambda>r. ''          ['' @ sq @ fst r @ sq @ '', '' @ sq @ fst (snd r) @ sq
                               @ '', '' @ sq @ snd (snd r) @ sq @ '']'') rows)
                @ nl
                @ ''      ]::text[][]'' @ nl
                @ ''    );'' @ nl
                @ ''commit;'' @ nl]"
    unfolding f row by (simp add: update_pixels_def TEMPLATE_def SUFFIX_def)
  from a b c d e g show ?thesis
    by blast
qed

text \<open>
  C2, amended. A run of \<^verbatim>\<open>sql\<close> that ends well prints two texts. The first is the
  \<^verbatim>\<open>UPDATE\<close> of the pixels of the images of the old fileset, with the name and the path
  of the target of the loop. The second is the block from \<^verbatim>\<open>begin;\<close> to \<^verbatim>\<open>commit;\<close>
  that calls \<^verbatim>\<open>mkngff_fileset\<close> with the old fileset, the secret, the hash of the
  managed repository, the new prefix and the rows, each row as
  \<^verbatim>\<open>['path', 'name', 'mime']\<close>. The \<^verbatim>\<open>UPDATE\<close> stands before \<^verbatim>\<open>begin;\<close>.
\<close>

theorem sql_script:
  assumes "sql srv args fs = (Inr (), out, fs')"
  shows "\<exists>prefix prefix_path prefix_name es rows fpath fname repo_uuid.
           get_prefix srv (fileset_id args) = Inr prefix
         \<and> rsplit_slash prefix = Some (prefix_path, prefix_name)
         \<and> walk fs' (path_of (symlink_target args)) = Inr es
         \<and> build_rows (str_path (parent (path_of (symlink_target args))))
              prefix_path prefix_name es = (rows, Some (fpath, fname))
         \<and> get_uuid srv = Inr repo_uuid
         \<and> out =
             [''UPDATE pixels SET name = '' @ sq @ fname @ sq @ '', path = '' @ sq @ fpath @ sq
                @ '' where image in (select id from Image where fileset = ''
                @ str_int (fileset_id args) @ '');'',
              nl @ ''begin;'' @ nl
                @ ''    select mkngff_fileset('' @ nl
                @ ''      '' @ str_int (fileset_id args) @ '','' @ nl
                @ ''      '' @ sq @ secret args @ sq @ '','' @ nl
                @ ''      '' @ sq @ repo_uuid @ sq @ '','' @ nl
                @ ''      '' @ sq @ prefix_path @ ''/'' @ prefix_name @ ''_mkngff/'' @ sq
                @ '','' @ nl
                @ ''      array['' @ nl
                @ join ('','' @ nl)
                    (map (\<lambda>r. ''          ['' @ sq @ fst r @ sq @ '', '' @ sq @ fst (snd r) @ sq
                               @ '', '' @ sq @ snd (snd r) @ sq @ '']'') rows)
                @ nl
                @ ''      ]::text[][]'' @ nl
                @ ''    );'' @ nl
                @ ''commit;'' @ nl]"
  using assms by (rule sql_texts)

theorem sql_script_witness:
  "\<exists>prefix prefix_path prefix_name es rows fpath fname repo_uuid.
     get_prefix (server1 ''/base/xyz'' [(''h1'', False), (''h2'', True)])
       (fileset_id (sql_args1 None)) = Inr prefix
   \<and> rsplit_slash prefix = Some (prefix_path, prefix_name)
   \<and> walk (snd (snd (sql (server1 ''/base/xyz'' [(''h1'', False), (''h2'', True)])
                        (sql_args1 None) (fs_with ngff_tree))))
        (path_of (symlink_target (sql_args1 None))) = Inr es
   \<and> build_rows (str_path (parent (path_of (symlink_target (sql_args1 None)))))
        prefix_path prefix_name es = (rows, Some (fpath, fname))
   \<and> get_uuid (server1 ''/base/xyz'' [(''h1'', False), (''h2'', True)]) = Inr repo_uuid
   \<and> fst (snd (sql (server1 ''/base/xyz'' [(''h1'', False), (''h2'', True)])
                  (sql_args1 None) (fs_with ngff_tree))) =
       [''UPDATE pixels SET name = '' @ sq @ fname @ sq @ '', path = '' @ sq @ fpath @ sq
          @ '' where image in (select id from Image where fileset = ''
          @ str_int (fileset_id (sql_args1 None)) @ '');'',
        nl @ ''begin;'' @ nl
          @ ''    select mkngff_fileset('' @ nl
          @ ''      '' @ str_int (fileset_id (sql_args1 None)) @ '','' @ nl
          @ ''      '' @ sq @ secret (sql_args1 None) @ sq @ '','' @ nl
          @ ''      '' @ sq @ repo_uuid @ sq @ '','' @ nl
          @ ''      '' @ sq @ prefix_path @ ''/'' @ prefix_name @ ''_mkngff/'' @ sq
          @ '','' @ nl
          @ ''      array['' @ nl
          @ join ('','' @ nl)
              (map (\<lambda>r. ''          ['' @ sq @ fst r @ sq @ '', '' @ sq @ fst (snd r) @ sq
                         @ '', '' @ sq @ snd (snd r) @ sq @ '']'') rows)
          @ nl
          @ ''      ]::text[][]'' @ nl
          @ ''    );'' @ nl
          @ ''commit;'' @ nl]"
proof -
  let ?run = "sql (server1 ''/base/xyz'' [(''h1'', False), (''h2'', True)]) (sql_args1 None)
                (fs_with ngff_tree)"
  have "?run = (Inr (), fst (snd ?run), snd (snd ?run))"
    using sql_ngff_ok by (metis prod.collapse)
  from sql_script [OF this] show ?thesis .
qed

text \<open>
  C5. In a run of \<^verbatim>\<open>sql\<close> that ends well, with the prefix of the fileset split at its
  last slash into \<open>prefix_path\<close> and \<open>prefix_name\<close>, the array of the printed call holds
  one row for every entry of the walk, in the order of the walk. The row of an entry has
  the name and the mime type of the entry, and its path begins with
  \<^verbatim>\<open><prefix_path>/<prefix_name>_mkngff/\<close> and ends with a slash.
\<close>

theorem sql_row_path_rooted:
  assumes "sql srv args fs = (Inr (), out, fs')"
  shows "\<exists>prefix prefix_path prefix_name es rows update_text repo_uuid.
           get_prefix srv (fileset_id args) = Inr prefix
         \<and> rsplit_slash prefix = Some (prefix_path, prefix_name)
         \<and> walk fs' (path_of (symlink_target args)) = Inr es
         \<and> length rows = length es
         \<and> (\<forall>i < length es.
                snd (rows ! i) = snd (es ! i)
              \<and> startswith (fst (rows ! i)) (prefix_path @ ''/'' @ prefix_name @ ''_mkngff/'')
              \<and> endswith (fst (rows ! i)) ''/'')
         \<and> out =
             [update_text,
              nl @ ''begin;'' @ nl
                @ ''    select mkngff_fileset('' @ nl
                @ ''      '' @ str_int (fileset_id args) @ '','' @ nl
                @ ''      '' @ sq @ secret args @ sq @ '','' @ nl
                @ ''      '' @ sq @ repo_uuid @ sq @ '','' @ nl
                @ ''      '' @ sq @ prefix_path @ ''/'' @ prefix_name @ ''_mkngff/'' @ sq
                @ '','' @ nl
                @ ''      array['' @ nl
                @ join ('','' @ nl)
                    (map (\<lambda>r. ''          ['' @ sq @ fst r @ sq @ '', '' @ sq @ fst (snd r) @ sq
                               @ '', '' @ sq @ snd (snd r) @ sq @ '']'') rows)
                @ nl
                @ ''      ]::text[][]'' @ nl
                @ ''    );'' @ nl
                @ ''commit;'' @ nl]"
proof -
  from sql_texts [OF assms] obtain prefix prefix_path prefix_name es rows fpath fname repo_uuid
    where a: "get_prefix srv (fileset_id args) = Inr prefix"
      and b: "rsplit_slash prefix = Some (prefix_path, prefix_name)"
      and c: "walk fs' (path_of (symlink_target args)) = Inr es"
      and d: "build_rows (str_path (parent (path_of (symlink_target args))))
                prefix_path prefix_name es = (rows, Some (fpath, fname))"
      and g: "out =
             [''UPDATE pixels SET name = '' @ sq @ fname @ sq @ '', path = '' @ sq @ fpath @ sq
                @ '' where image in (select id from Image where fileset = ''
                @ str_int (fileset_id args) @ '');'',
              nl @ ''begin;'' @ nl
                @ ''    select mkngff_fileset('' @ nl
                @ ''      '' @ str_int (fileset_id args) @ '','' @ nl
                @ ''      '' @ sq @ secret args @ sq @ '','' @ nl
                @ ''      '' @ sq @ repo_uuid @ sq @ '','' @ nl
                @ ''      '' @ sq @ prefix_path @ ''/'' @ prefix_name @ ''_mkngff/'' @ sq
                @ '','' @ nl
                @ ''      array['' @ nl
                @ join ('','' @ nl)
                    (map (\<lambda>r. ''          ['' @ sq @ fst r @ sq @ '', '' @ sq @ fst (snd r) @ sq
                               @ '', '' @ sq @ snd (snd r) @ sq @ '']'') rows)
                @ nl
                @ ''      ]::text[][]'' @ nl
                @ ''    );'' @ nl
                @ ''commit;'' @ nl]"
    by blast
  have len: "length rows = length es"
    using fst_build_rows [of "str_path (parent (path_of (symlink_target args)))"
        prefix_path prefix_name es] d
    by simp
  have rows: "\<forall>i < length es.
                snd (rows ! i) = snd (es ! i)
              \<and> startswith (fst (rows ! i)) (prefix_path @ ''/'' @ prefix_name @ ''_mkngff/'')
              \<and> endswith (fst (rows ! i)) ''/''"
    using build_rows_rooted [OF d] by blast
  from a b c len rows g show ?thesis
    by blast
qed

theorem sql_row_path_rooted_witness:
  "\<exists>prefix prefix_path prefix_name es rows update_text repo_uuid.
     get_prefix (server1 ''/base/xyz'' [(''h1'', False), (''h2'', True)])
       (fileset_id (sql_args1 None)) = Inr prefix
   \<and> rsplit_slash prefix = Some (prefix_path, prefix_name)
   \<and> walk (snd (snd (sql (server1 ''/base/xyz'' [(''h1'', False), (''h2'', True)])
                        (sql_args1 None) (fs_with ngff_tree))))
        (path_of (symlink_target (sql_args1 None))) = Inr es
   \<and> length rows = length es
   \<and> (\<forall>i < length es.
          snd (rows ! i) = snd (es ! i)
        \<and> startswith (fst (rows ! i)) (prefix_path @ ''/'' @ prefix_name @ ''_mkngff/'')
        \<and> endswith (fst (rows ! i)) ''/'')
   \<and> fst (snd (sql (server1 ''/base/xyz'' [(''h1'', False), (''h2'', True)])
                  (sql_args1 None) (fs_with ngff_tree))) =
       [update_text,
        nl @ ''begin;'' @ nl
          @ ''    select mkngff_fileset('' @ nl
          @ ''      '' @ str_int (fileset_id (sql_args1 None)) @ '','' @ nl
          @ ''      '' @ sq @ secret (sql_args1 None) @ sq @ '','' @ nl
          @ ''      '' @ sq @ repo_uuid @ sq @ '','' @ nl
          @ ''      '' @ sq @ prefix_path @ ''/'' @ prefix_name @ ''_mkngff/'' @ sq
          @ '','' @ nl
          @ ''      array['' @ nl
          @ join ('','' @ nl)
              (map (\<lambda>r. ''          ['' @ sq @ fst r @ sq @ '', '' @ sq @ fst (snd r) @ sq
                         @ '', '' @ sq @ snd (snd r) @ sq @ '']'') rows)
          @ nl
          @ ''      ]::text[][]'' @ nl
          @ ''    );'' @ nl
          @ ''commit;'' @ nl]"
proof -
  let ?run = "sql (server1 ''/base/xyz'' [(''h1'', False), (''h2'', True)]) (sql_args1 None)
                (fs_with ngff_tree)"
  have "?run = (Inr (), fst (snd ?run), snd (snd ?run))"
    using sql_ngff_ok by (metis prod.collapse)
  from sql_row_path_rooted [OF this] show ?thesis .
qed

section \<open>The scenario of the specification\<close>

text \<open>
  C4 does not hold as stated: for the tree of the scenario the loop of \<^verbatim>\<open>sql\<close> does not
  build the three rows of the claim, and the run prints nothing, for the tree holds no
  metadata descriptor.
\<close>

theorem scenario_rows_counterexample:
  "fst (build_rows ''/data'' ''/base'' ''xyz'' (walk_dir (path_of ''/data/root'') scenario_tree))
     \<noteq> [(''/base/xyz_mkngff/a.txt/'', ''a.txt'', ''application/octet-stream''),
         (''/base/xyz_mkngff/g/'', ''g'', ''Directory''),
         (''/base/xyz_mkngff/g/arr/'', ''arr'', ''Directory'')]
   \<and> fst (snd (sql (server1 ''/base/xyz'' [(''h'', True)]) (sql_args1 None)
                  (fs_with scenario_tree))) = []"
proof -
  have "fst (snd (sql (server1 ''/base/xyz'' [(''h'', True)]) (sql_args1 None)
                    (fs_with scenario_tree))) = []"
    by code_simp
  then show ?thesis
    unfolding build_rows_scenario by simp
qed

text \<open>
  C4, amended. For the tree of the scenario at \<^verbatim>\<open>/data/root\<close> and the prefix
  \<^verbatim>\<open>/base/xyz\<close>, the walk of \<^verbatim>\<open>sql\<close> yields four entries and its loop builds four
  rows, in this order: \<^verbatim>\<open>a.txt\<close> and \<^verbatim>\<open>g\<close> with the path
  \<^verbatim>\<open>/base/xyz_mkngff/root/\<close>, then \<^verbatim>\<open>.zgroup\<close> and \<^verbatim>\<open>arr\<close> with the path
  \<^verbatim>\<open>/base/xyz_mkngff/root/g/\<close>; the directories have the mime type
  \<^verbatim>\<open>Directory\<close>, the files \<^verbatim>\<open>application/octet-stream\<close>, and there is no row for
  \<^verbatim>\<open>g/arr/0\<close> and \<^verbatim>\<open>g/arr/1\<close>.
\<close>

theorem scenario_rows:
  "rsplit_slash ''/base/xyz'' = Some (''/base'', ''xyz'')
   \<and> walk (fs_with scenario_tree) (path_of ''/data/root'') =
       Inr (walk_dir (path_of ''/data/root'') scenario_tree)
   \<and> fst (build_rows (str_path (parent (path_of ''/data/root''))) ''/base'' ''xyz''
           (walk_dir (path_of ''/data/root'') scenario_tree)) =
       [(''/base/xyz_mkngff/root/'', ''a.txt'', ''application/octet-stream''),
        (''/base/xyz_mkngff/root/'', ''g'', ''Directory''),
        (''/base/xyz_mkngff/root/g/'', ''.zgroup'', ''application/octet-stream''),
        (''/base/xyz_mkngff/root/g/'', ''arr'', ''Directory'')]"
proof -
  have a: "rsplit_slash ''/base/xyz'' = Some (''/base'', ''xyz'')"
    by code_simp
  have b: "walk (fs_with scenario_tree) (path_of ''/data/root'') =
             Inr (walk_dir (path_of ''/data/root'') scenario_tree)"
    by code_simp
  have c: "str_path (parent (path_of ''/data/root'')) = ''/data''"
    by code_simp
  from a b show ?thesis
    unfolding c build_rows_scenario by simp
qed

theorem scenario_rows_witness:
  "length (fst (build_rows (str_path (parent (path_of ''/data/root''))) ''/base'' ''xyz''
                  (walk_dir (path_of ''/data/root'') scenario_tree))) = 4"
  using scenario_rows by simp

section \<open>Runs of sql that fail\<close>

lemma find_None_iff: "find P xs = None \<longleftrightarrow> (\<forall>x \<in> set xs. \<not> P x)"
  by (induction xs) auto

lemma build_rows_no_descriptor:
  assumes "\<forall>e \<in> set es. fst (snd e) \<noteq> ''.zattrs'' \<and> fst (snd e) \<noteq> ''METADATA.ome.xml''"
  shows "snd (build_rows common pp pn es) = None"
proof -
  let ?rows = "fst (build_rows common pp pn es)"
  have names: "\<forall>r \<in> set ?rows. fst (snd r) \<noteq> ''.zattrs'' \<and> fst (snd r) \<noteq> ''METADATA.ome.xml''"
    using assms unfolding fst_build_rows by auto
  have a: "find (\<lambda>r. fst (snd r) = ''METADATA.ome.xml'') (rev ?rows) = None"
    using names by (simp add: find_None_iff)
  have b: "find (\<lambda>r. fst (snd r) = ''.zattrs'') ?rows = None"
    using names by (simp add: find_None_iff)
  have "last_xml_else_first_zattrs ?rows = None"
    unfolding last_xml_else_first_zattrs_def a b by (simp add: setid_of_def)
  then show ?thesis
    by (simp add: snd_build_rows)
qed

text \<open>
  C6 does not hold as stated: the tree of the scenario holds no metadata descriptor, and
  the run with the repository \<^verbatim>\<open>/repo\<close> fails only after it has created the directory
  \<^verbatim>\<open>/repo/base/xyz_mkngff\<close> and the symlink in it.
\<close>

theorem sql_no_descriptor_counterexample:
  "fst (sql (server1 ''base/xyz'' [(''h'', True)]) (sql_args1 (Some ''/repo''))
          (fs_with scenario_tree)) = Inl TypeError
   \<and> lstat (fs_with scenario_tree) ''/repo/base/xyz_mkngff'' = None
   \<and> lstat (snd (snd (sql (server1 ''base/xyz'' [(''h'', True)]) (sql_args1 (Some ''/repo''))
                         (fs_with scenario_tree))))
        ''/repo/base/xyz_mkngff/root'' = Some (Link ''/data/root'')"
  by code_simp

text \<open>
  A run of \<^verbatim>\<open>sql\<close> that fails has printed nothing, unless it is \<^verbatim>\<open>get_uuid\<close> that
  failed: then it has printed one text.
\<close>

lemma sql_failure_output:
  assumes "sql srv args fs = (Inl e, out, fs')"
  shows "out = [] \<or> (get_uuid srv = Inl e \<and> length out = 1)"
  using assms unfolding sql_def Let_def
  by (auto split: sum.splits option.splits prod.splits if_splits)

text \<open>A run of \<^verbatim>\<open>sql\<close> with a target that does not exist fails and changes nothing.\<close>

lemma sql_missing_target:
  assumes "\<not> os_path_exists fs (str_path (path_of (symlink_target args)))"
  shows "\<exists>e. sql srv args fs = (Inl e, [], fs)"
  using assms unfolding sql_def Let_def
  by (auto split: sum.splits option.splits prod.splits if_splits)

text \<open>
  C7: the server has no managed repository. The run of \<^verbatim>\<open>sql\<close> fails with the code 402
  of \<^verbatim>\<open>get_uuid\<close>, which is called while the arguments of the template are computed,
  after the \<^verbatim>\<open>UPDATE\<close> has been printed: the output is the \<^verbatim>\<open>UPDATE\<close> alone.
\<close>

theorem sql_update_alone:
  "sql (server1 ''/base/xyz'' [(''h1'', False)]) (sql_args1 None) (fs_with ngff_tree) =
     (Inl (Die 402),
      [''UPDATE pixels SET name = '' @ sq @ ''METADATA.ome.xml'' @ sq @ '', path = '' @ sq
         @ ''/base/xyz_mkngff/root/OME'' @ sq
         @ '' where image in (select id from Image where fileset = 1);''],
      fs_with ngff_tree)"
  by code_simp

text \<open>
  C9: the target \<^verbatim>\<open>/data/missing.zarr\<close> does not exist. The \<^verbatim>\<open>symlink\<close> operation
  does not look at it: it ends well and has created the directory
  \<^verbatim>\<open>/repo/base/xyz_mkngff\<close> and a dangling link in it. The \<^verbatim>\<open>sql\<close> operation with the
  same target fails with the code 401 and leaves the file system as it was.
\<close>

theorem symlink_missing_target:
  "\<not> os_path_exists (fs_with ngff_tree) ''/data/missing.zarr''
   \<and> symlink (server1 ''base/xyz'' [])
       \<lparr>sl_symlink_repo = ''/repo'', sl_fileset_id = 1,
        sl_symlink_target = ''/data/missing.zarr''\<rparr>
       (fs_with ngff_tree) =
     (Inr (), [],
      \<lparr>root = Dir [(''data'', Dir [(''root'', Dir ngff_tree)]),
                   (''repo'', Dir [(''base'', Dir [(''xyz'', Dir []),
                      (''xyz_mkngff'', Dir [(''missing.zarr'', Link ''/data/missing.zarr'')])])])],
       cwd = []\<rparr>)
   \<and> sql (server1 ''base/xyz'' [])
       ((sql_args1 (Some ''/repo''))\<lparr>symlink_target := ''/data/missing.zarr''\<rparr>)
       (fs_with ngff_tree) =
     (Inl (Die 401), [], fs_with ngff_tree)"
  by code_simp

section \<open>The symlink in the managed repository\<close>

lemma same_kind_refl: "same_kind n n"
  by (cases n) auto

lemma same_kind_Link: "same_kind (Link t) n \<Longrightarrow> n = Link t"
  by (cases n) auto

lemma same_kind_Dir: "same_kind (Dir cs) n \<Longrightarrow> \<exists>ds. n = Dir ds"
  by (cases n) auto

lemma same_kind_trans: "same_kind a b \<Longrightarrow> same_kind b c \<Longrightarrow> same_kind a c"
  by (cases a; cases b; cases c) auto

lemma map_of_set_entry:
  "map_of (set_entry c n cs) k = (if k = c \<and> map_of cs c \<noteq> None then Some n else map_of cs k)"
  by (induction cs) auto

lemma set_entry_same: "map_of cs c = Some n \<Longrightarrow> set_entry c n cs = cs"
  by (induction cs) (auto split: if_splits)

lemma map_of_snoc:
  "map_of (cs @ [(c, n)]) k = (case map_of cs k of Some m \<Rightarrow> Some m | None \<Rightarrow> if k = c then Some n else None)"
  by (induction cs) auto

lemma lookup_fresh_dirs: "\<exists>ds. lookup (fresh_dirs p) p = Some (Dir ds)"
  by (induction p) auto

text \<open>\<^verbatim>\<open>makedirs\<close> leaves a directory at its path, keeps what was there, and changes
  nothing when the directory exists.\<close>

lemma mkdirs_dir: "mkdirs p r = Inr r' \<Longrightarrow> \<exists>ds. lookup r' p = Some (Dir ds)"
proof (induction p r arbitrary: r' rule: mkdirs.induct)
  case (4 c p cs)
  show ?case
  proof (cases "map_of cs c")
    case None
    with 4 have "r' = Dir (cs @ [(c, fresh_dirs p)])" by simp
    with None lookup_fresh_dirs [of p] show ?thesis
      by (auto simp add: map_of_snoc simp del: map_of_append)
  next
    case (Some n)
    with 4(2) obtain n' where n': "mkdirs p n = Inr n'" and r': "r' = Dir (set_entry c n' cs)"
      by (auto split: sum.splits)
    from 4(1) [OF Some n'] obtain ds where "lookup n' p = Some (Dir ds)" by blast
    with Some r' show ?thesis
      by (simp add: map_of_set_entry)
  qed
qed auto

lemma mkdirs_keeps:
  "mkdirs p r = Inr r' \<Longrightarrow> lookup r q = Some n \<Longrightarrow> \<exists>n'. lookup r' q = Some n' \<and> same_kind n n'"
proof (induction p r arbitrary: r' q n rule: mkdirs.induct)
  case (1 cs)
  then show ?case by (auto simp add: same_kind_refl)
next
  case (4 c p cs)
  show ?case
  proof (cases q)
    case Nil
    with 4(2,3) show ?thesis
      by (auto split: option.splits sum.splits)
  next
    case (Cons k q')
    with 4(3) obtain m where m: "map_of cs k = Some m" and l: "lookup m q' = Some n"
      by (auto split: option.splits)
    show ?thesis
    proof (cases "map_of cs c")
      case None
      with 4(2) have "r' = Dir (cs @ [(c, fresh_dirs p)])" by simp
      with m l Cons show ?thesis
        by (auto simp add: map_of_snoc same_kind_refl simp del: map_of_append)
    next
      case (Some x)
      with 4(2) obtain x' where x': "mkdirs p x = Inr x'" and r': "r' = Dir (set_entry c x' cs)"
        by (auto split: sum.splits)
      show ?thesis
      proof (cases "k = c")
        case True
        with m Some have "x = m" by simp
        with 4(1) [OF Some x'] l obtain n' where "lookup x' q' = Some n'" "same_kind n n'"
          by blast
        with True Some r' Cons show ?thesis
          by (auto simp add: map_of_set_entry)
      next
        case False
        with m l r' Cons show ?thesis
          by (auto simp add: map_of_set_entry same_kind_refl)
      qed
    qed
  qed
qed auto

lemma mkdirs_exists: "lookup r p = Some (Dir ds) \<Longrightarrow> mkdirs p r = Inr r"
proof (induction p r arbitrary: ds rule: mkdirs.induct)
  case (4 c p cs)
  then obtain n where n: "map_of cs c = Some n" and l: "lookup n p = Some (Dir ds)"
    by (auto split: option.splits)
  from 4(1) [OF n l] n show ?case
    by (simp add: set_entry_same)
qed auto

text \<open>\<^verbatim>\<open>symlink\<close> leaves the link at its path, keeps what was there, and fails when
  the path names something.\<close>

lemma mklink_link: "mklink t p r = Inr r' \<Longrightarrow> lookup r' p = Some (Link t)"
proof (induction t p r arbitrary: r' rule: mklink.induct)
  case (2 t c cs)
  then show ?case
    by (auto simp add: map_of_snoc simp del: map_of_append split: option.splits)
next
  case (3 t c d p cs)
  then obtain n n' where n: "map_of cs c = Some n" and n': "mklink t (d # p) n = Inr n'"
    and r': "r' = Dir (set_entry c n' cs)"
    by (auto split: option.splits sum.splits)
  from 3(1) [OF n n'] n r' show ?case
    by (simp add: map_of_set_entry)
qed auto

lemma mklink_keeps:
  "mklink t p r = Inr r' \<Longrightarrow> lookup r q = Some n \<Longrightarrow> \<exists>n'. lookup r' q = Some n' \<and> same_kind n n'"
proof (induction t p r arbitrary: r' q n rule: mklink.induct)
  case (2 t c cs)
  then have r': "r' = Dir (cs @ [(c, Link t)])"
    by (auto split: option.splits)
  show ?case
  proof (cases q)
    case Nil
    with 2(2) r' show ?thesis by auto
  next
    case (Cons k q')
    with 2(2) r' show ?thesis
      by (auto simp add: map_of_snoc same_kind_refl simp del: map_of_append split: option.splits)
  qed
next
  case (3 t c d p cs)
  then obtain x x' where x: "map_of cs c = Some x" and x': "mklink t (d # p) x = Inr x'"
    and r': "r' = Dir (set_entry c x' cs)"
    by (auto split: option.splits sum.splits)
  show ?case
  proof (cases q)
    case Nil
    with 3(3) r' show ?thesis by auto
  next
    case (Cons k q')
    with 3(3) obtain m where m: "map_of cs k = Some m" and l: "lookup m q' = Some n"
      by (auto split: option.splits)
    show ?thesis
    proof (cases "k = c")
      case True
      with m x have "x = m" by simp
      with 3(1) [OF x x'] l obtain n' where "lookup x' q' = Some n'" "same_kind n n'"
        by blast
      with True x r' Cons show ?thesis
        by (auto simp add: map_of_set_entry)
    next
      case False
      with m l r' Cons show ?thesis
        by (auto simp add: map_of_set_entry same_kind_refl)
    qed
  qed
qed auto

lemma mklink_exists: "lookup r p = Some n \<Longrightarrow> mklink t p r = Inl FileExistsError"
proof (induction t p r arbitrary: n rule: mklink.induct)
  case (3 t c d p cs)
  then obtain m where m: "map_of cs c = Some m" and l: "lookup m (d # p) = Some n"
    by (auto split: option.splits)
  from 3(1) [OF m l] m show ?case
    by simp
qed (auto split: option.splits)

lemma os_parts_root: "os_parts (fs\<lparr>root := r\<rparr>) s = os_parts fs s"
  by (simp add: os_parts_def)

lemma os_makedirs_Inr:
  assumes "os_makedirs fs s = (Inr u, fs1)"
  shows "s \<noteq> [] \<and> mkdirs (os_parts fs s) (root fs) = Inr (root fs1) \<and> fs1 = fs\<lparr>root := root fs1\<rparr>"
  using assms unfolding os_makedirs_def by (auto split: if_splits sum.splits)

lemma os_makedirs_Inl: "os_makedirs fs s = (Inl e, fs1) \<Longrightarrow> fs1 = fs"
  unfolding os_makedirs_def by (auto split: if_splits sum.splits)

lemma os_symlink_Inr:
  assumes "os_symlink fs t s b = (Inr u, fs1)"
  shows "t \<noteq> [] \<and> s \<noteq> [] \<and> mklink t (os_parts fs s) (root fs) = Inr (root fs1)
     \<and> fs1 = fs\<lparr>root := root fs1\<rparr>"
  using assms unfolding os_symlink_def by (auto split: if_splits sum.splits)

lemma os_symlink_Inl: "os_symlink fs t s b = (Inl e, fs1) \<Longrightarrow> fs1 = fs"
  unfolding os_symlink_def by (auto split: if_splits sum.splits)

lemma os_path_exists_iff:
  "os_path_exists fs s \<longleftrightarrow>
     s \<noteq> [] \<and> (\<exists>n. lookup (root fs) (os_parts fs s) = Some n \<and> (\<forall>t. n \<noteq> Link t))"
  unfolding os_path_exists_def lstat_def
  by (auto split: option.splits node.splits)

lemma same_kind_not_Link: "same_kind n n' \<Longrightarrow> \<forall>t. n \<noteq> Link t \<Longrightarrow> \<forall>t. n' \<noteq> Link t"
  by (cases n; cases n') auto

text \<open>A second call of \<^verbatim>\<open>create_symlink\<close> after one that ended well.\<close>

lemma create_symlink_again:
  assumes "create_symlink fs repo prefix sp target = (Inr (), fs1)"
  shows "os_makedirs fs1 (os_path_join repo prefix @ ''_'' @ SUFFIX) = (Inr (), fs1)
     \<and> create_symlink fs1 repo prefix sp target = (Inl FileExistsError, fs1)"
proof -
  let ?pd = "os_path_join repo prefix"
  let ?sd = "?pd @ ''_'' @ SUFFIX"
  let ?src = "os_path_join ?sd (name sp)"
  from assms have ex: "os_path_exists fs ?pd"
    unfolding create_symlink_def Let_def by (auto split: if_splits)
  from assms ex obtain u fs2 where mk: "os_makedirs fs ?sd = (Inr u, fs2)"
    and sl: "os_symlink fs2 target ?src (os_path_isdir fs2 target) = (Inr (), fs1)"
    unfolding create_symlink_def Let_def
    by (auto split: if_splits prod.splits sum.splits)
  from os_makedirs_Inr [OF mk] have sd: "?sd \<noteq> []"
    and m2: "mkdirs (os_parts fs ?sd) (root fs) = Inr (root fs2)"
    and fs2: "fs2 = fs\<lparr>root := root fs2\<rparr>"
    by auto
  from os_symlink_Inr [OF sl] have tg: "target \<noteq> []" and src: "?src \<noteq> []"
    and m1: "mklink target (os_parts fs2 ?src) (root fs2) = Inr (root fs1)"
    and fs1: "fs1 = fs2\<lparr>root := root fs1\<rparr>"
    by auto
  have parts2: "os_parts fs2 s = os_parts fs s" for s
    using fs2 os_parts_root [where fs = fs and r = "root fs2" and s = s] by simp
  have parts1: "os_parts fs1 s = os_parts fs s" for s
    using fs1 os_parts_root [where fs = fs2 and r = "root fs1" and s = s] parts2 by simp
  have self: "fs1\<lparr>root := root fs1\<rparr> = fs1"
    by simp
  \<comment> \<open>the directory of the fileset still exists\<close>
  from ex obtain n where pd: "?pd \<noteq> []" and n: "lookup (root fs) (os_parts fs ?pd) = Some n"
    and nl: "\<forall>t. n \<noteq> Link t"
    unfolding os_path_exists_iff by blast
  from mkdirs_keeps [OF m2 n] obtain n2 where n2: "lookup (root fs2) (os_parts fs ?pd) = Some n2"
    and k2: "same_kind n n2"
    by blast
  from mklink_keeps [OF m1 n2] obtain n1 where n1: "lookup (root fs1) (os_parts fs ?pd) = Some n1"
    and k1: "same_kind n2 n1"
    by blast
  from same_kind_not_Link [OF k1 same_kind_not_Link [OF k2 nl]] have "\<forall>t. n1 \<noteq> Link t" .
  with pd n1 have ex1: "os_path_exists fs1 ?pd"
    unfolding os_path_exists_iff parts1 by blast
  \<comment> \<open>the mirror directory exists, so that \<^verbatim>\<open>makedirs\<close> changes nothing\<close>
  from mkdirs_dir [OF m2] obtain ds where d2: "lookup (root fs2) (os_parts fs ?sd) = Some (Dir ds)"
    by blast
  from mklink_keeps [OF m1 d2] obtain d1 where "lookup (root fs1) (os_parts fs ?sd) = Some d1"
    and "same_kind (Dir ds) d1"
    by blast
  then obtain ds1 where d1: "lookup (root fs1) (os_parts fs ?sd) = Some (Dir ds1)"
    using same_kind_Dir by blast
  have mk1: "os_makedirs fs1 ?sd = (Inr (), fs1)"
    unfolding os_makedirs_def parts1 using sd mkdirs_exists [OF d1] self by simp
  \<comment> \<open>the link is there, so that \<^verbatim>\<open>symlink\<close> raises\<close>
  from mklink_link [OF m1] have "lookup (root fs1) (os_parts fs ?src) = Some (Link target)"
    unfolding parts2 .
  from mklink_exists [OF this] have "mklink target (os_parts fs ?src) (root fs1) = Inl FileExistsError" .
  then have sl1: "os_symlink fs1 target ?src b = (Inl FileExistsError, fs1)" for b
    unfolding os_symlink_def parts1 using tg src by simp
  have "create_symlink fs1 repo prefix sp target = (Inl FileExistsError, fs1)"
    unfolding create_symlink_def Let_def using ex1 mk1 sl1 by simp
  with mk1 show ?thesis
    by simp
qed

text \<open>A call of \<^verbatim>\<open>create_symlink\<close> where a link stands at the place of the new one.\<close>

lemma create_symlink_link_there:
  assumes "lstat fs (os_path_join (os_path_join repo prefix @ ''_'' @ SUFFIX) (name sp))
             = Some (Link other)"
  shows "\<exists>e fs'. create_symlink fs repo prefix sp target = (Inl e, fs')
           \<and> lstat fs' (os_path_join (os_path_join repo prefix @ ''_'' @ SUFFIX) (name sp))
               = Some (Link other)"
proof -
  let ?pd = "os_path_join repo prefix"
  let ?sd = "?pd @ ''_'' @ SUFFIX"
  let ?src = "os_path_join ?sd (name sp)"
  from assms have src: "?src \<noteq> []" and l: "lookup (root fs) (os_parts fs ?src) = Some (Link other)"
    unfolding lstat_def by (auto split: if_splits)
  show ?thesis
  proof (cases "os_path_exists fs ?pd")
    case False
    then have "create_symlink fs repo prefix sp target = (Inl (Die 402), fs)"
      unfolding create_symlink_def Let_def by simp
    with assms show ?thesis by blast
  next
    case True
    obtain r fs2 where mk: "os_makedirs fs ?sd = (r, fs2)"
      by (cases "os_makedirs fs ?sd")
    show ?thesis
    proof (cases r)
      case (Inl e)
      with mk os_makedirs_Inl [of fs ?sd e fs2] have "fs2 = fs" by simp
      with True mk Inl have "create_symlink fs repo prefix sp target = (Inl e, fs)"
        unfolding create_symlink_def Let_def by simp
      with assms show ?thesis by blast
    next
      case (Inr u)
      from os_makedirs_Inr [OF mk [unfolded Inr]]
      have m2: "mkdirs (os_parts fs ?sd) (root fs) = Inr (root fs2)"
        and fs2: "fs2 = fs\<lparr>root := root fs2\<rparr>"
        by auto
      have parts2: "os_parts fs2 s = os_parts fs s" for s
        using fs2 os_parts_root [where fs = fs and r = "root fs2" and s = s] by simp
      from mkdirs_keeps [OF m2 l] same_kind_Link
      have l2: "lookup (root fs2) (os_parts fs ?src) = Some (Link other)"
        by blast
      then have ls2: "lstat fs2 ?src = Some (Link other)"
        unfolding lstat_def parts2 using src by simp
      have "os_symlink fs2 target ?src b =
              (Inl (if target = [] then FileNotFoundError else FileExistsError), fs2)" for b
        unfolding os_symlink_def parts2 using src mklink_exists [OF l2] by simp
      with True mk Inr
      have "create_symlink fs repo prefix sp target =
              (Inl (if target = [] then FileNotFoundError else FileExistsError), fs2)"
        unfolding create_symlink_def Let_def by simp
      with ls2 show ?thesis by blast
    qed
  qed
qed

text \<open>
  C8. After a call of \<^verbatim>\<open>create_symlink\<close> that ended well, a second call with the same
  arguments finds the mirror directory (\<^verbatim>\<open>makedirs\<close> changes nothing), raises
  \<^verbatim>\<open>FileExistsError\<close> at the link and leaves the file system as it is. And whenever a
  link stands at the place of the new one, whatever its target, the call fails and the
  link stays as it was.
\<close>

theorem create_symlink_twice:
  "(create_symlink fs repo prefix sp target = (Inr (), fs1) \<longrightarrow>
      os_makedirs fs1 (os_path_join repo prefix @ ''_mkngff'') = (Inr (), fs1)
    \<and> create_symlink fs1 repo prefix sp target = (Inl FileExistsError, fs1))
   \<and> (lstat fs (os_path_join (os_path_join repo prefix @ ''_mkngff'') (name sp))
         = Some (Link other) \<longrightarrow>
      (\<exists>e fs'. create_symlink fs repo prefix sp target = (Inl e, fs')
         \<and> lstat fs' (os_path_join (os_path_join repo prefix @ ''_mkngff'') (name sp))
             = Some (Link other)))"
  using create_symlink_again [of fs repo prefix sp target fs1]
    create_symlink_link_there [of fs repo prefix sp other target]
  by (simp add: SUFFIX_def)

theorem create_symlink_twice_witness:
  "create_symlink (fs_with ngff_tree) ''/repo'' ''base/xyz'' (path_of ''/data/root'') ''/data/root''
     = (Inr (),
        \<lparr>root = Dir [(''data'', Dir [(''root'', Dir ngff_tree)]),
                     (''repo'', Dir [(''base'', Dir [(''xyz'', Dir []),
                        (''xyz_mkngff'', Dir [(''root'', Link ''/data/root'')])])])],
         cwd = []\<rparr>)
   \<and> create_symlink
        \<lparr>root = Dir [(''data'', Dir [(''root'', Dir ngff_tree)]),
                     (''repo'', Dir [(''base'', Dir [(''xyz'', Dir []),
                        (''xyz_mkngff'', Dir [(''root'', Link ''/data/root'')])])])],
         cwd = []\<rparr>
        ''/repo'' ''base/xyz'' (path_of ''/data/root'') ''/data/root''
     = (Inl FileExistsError,
        \<lparr>root = Dir [(''data'', Dir [(''root'', Dir ngff_tree)]),
                     (''repo'', Dir [(''base'', Dir [(''xyz'', Dir []),
                        (''xyz_mkngff'', Dir [(''root'', Link ''/data/root'')])])])],
         cwd = []\<rparr>)"
proof -
  let ?fs1 = "\<lparr>root = Dir [(''data'', Dir [(''root'', Dir ngff_tree)]),
                     (''repo'', Dir [(''base'', Dir [(''xyz'', Dir []),
                        (''xyz_mkngff'', Dir [(''root'', Link ''/data/root'')])])])],
         cwd = []\<rparr>"
  have first: "create_symlink (fs_with ngff_tree) ''/repo'' ''base/xyz'' (path_of ''/data/root'')
                 ''/data/root'' = (Inr (), ?fs1)"
    by code_simp
  from create_symlink_twice [of "fs_with ngff_tree" "''/repo''" "''base/xyz''"
      "path_of ''/data/root''" "''/data/root''" ?fs1] first
  show ?thesis
    by simp
qed

text \<open>What a call of \<^verbatim>\<open>create_symlink\<close> that ended well has made.\<close>

lemma create_symlink_made:
  assumes "create_symlink fs repo prefix sp target = (Inr (), fs1)"
  shows "os_path_isdir fs1 (os_path_join repo prefix @ ''_mkngff'')
     \<and> lstat fs1 (os_path_join (os_path_join repo prefix @ ''_mkngff'') (name sp))
         = Some (Link target)"
proof -
  let ?pd = "os_path_join repo prefix"
  let ?sd = "?pd @ ''_'' @ SUFFIX"
  let ?src = "os_path_join ?sd (name sp)"
  from assms have ex: "os_path_exists fs ?pd"
    unfolding create_symlink_def Let_def by (auto split: if_splits)
  from assms ex obtain u fs2 where mk: "os_makedirs fs ?sd = (Inr u, fs2)"
    and sl: "os_symlink fs2 target ?src (os_path_isdir fs2 target) = (Inr (), fs1)"
    unfolding create_symlink_def Let_def
    by (auto split: if_splits prod.splits sum.splits)
  from os_makedirs_Inr [OF mk] have sd: "?sd \<noteq> []"
    and m2: "mkdirs (os_parts fs ?sd) (root fs) = Inr (root fs2)"
    and fs2: "fs2 = fs\<lparr>root := root fs2\<rparr>"
    by auto
  from os_symlink_Inr [OF sl] have src: "?src \<noteq> []"
    and m1: "mklink target (os_parts fs2 ?src) (root fs2) = Inr (root fs1)"
    and fs1: "fs1 = fs2\<lparr>root := root fs1\<rparr>"
    by auto
  have parts2: "os_parts fs2 s = os_parts fs s" for s
    using fs2 os_parts_root [where fs = fs and r = "root fs2" and s = s] by simp
  have parts1: "os_parts fs1 s = os_parts fs s" for s
    using fs1 os_parts_root [where fs = fs2 and r = "root fs1" and s = s] parts2 by simp
  from mkdirs_dir [OF m2] obtain ds where d2: "lookup (root fs2) (os_parts fs ?sd) = Some (Dir ds)"
    by blast
  from mklink_keeps [OF m1 d2] obtain d1 where "lookup (root fs1) (os_parts fs ?sd) = Some d1"
    and "same_kind (Dir ds) d1"
    by blast
  then obtain ds1 where d1: "lookup (root fs1) (os_parts fs ?sd) = Some (Dir ds1)"
    using same_kind_Dir by blast
  have dir: "os_path_isdir fs1 ?sd"
    unfolding os_path_isdir_def lstat_def parts1 using sd d1 by simp
  from mklink_link [OF m1] have "lookup (root fs1) (os_parts fs ?src) = Some (Link target)"
    unfolding parts2 .
  then have link: "lstat fs1 ?src = Some (Link target)"
    unfolding lstat_def parts1 using src by simp
  from dir link show ?thesis
    by (simp add: SUFFIX_def)
qed

text \<open>
  C6, amended. Let a run of \<^verbatim>\<open>sql\<close> get as far as the walk: the prefix of the fileset is
  found and has a slash, the target exists, and \<^verbatim>\<open>create_symlink\<close>, called when a
  repository is given, has ended well and left the file system \<open>fs1\<close>. When the walk
  yields no entry named \<^verbatim>\<open>.zattrs\<close> or \<^verbatim>\<open>METADATA.ome.xml\<close>, the run fails with the
  \<^verbatim>\<open>TypeError\<close> of \<^verbatim>\<open>setid_target[0]\<close>, prints nothing and leaves \<open>fs1\<close>: without a
  repository that is the file system as it was; with one, the mirror directory and the
  symlink are there.
\<close>

theorem sql_no_descriptor:
  assumes "get_prefix srv (fileset_id args) = Inr prefix"
    and "rsplit_slash prefix = Some (prefix_path, prefix_name)"
    and "os_path_exists fs (str_path (path_of (symlink_target args)))"
    and "case symlink_repo args of
           None \<Rightarrow> fs1 = fs
         | Some repo \<Rightarrow>
             if repo = [] then fs1 = fs
             else create_symlink fs repo prefix (path_of (symlink_target args))
                    (symlink_target args) = (Inr (), fs1)"
    and "walk fs1 (path_of (symlink_target args)) = Inr es"
    and "\<forall>e \<in> set es. fst (snd e) \<noteq> ''.zattrs'' \<and> fst (snd e) \<noteq> ''METADATA.ome.xml''"
  shows "sql srv args fs = (Inl TypeError, [], fs1)
     \<and> (symlink_repo args = None \<or> symlink_repo args = Some [] \<longrightarrow> fs1 = fs)
     \<and> (\<forall>repo. symlink_repo args = Some repo \<and> repo \<noteq> [] \<longrightarrow>
            os_path_isdir fs1 (os_path_join repo prefix @ ''_mkngff'')
          \<and> lstat fs1 (os_path_join (os_path_join repo prefix @ ''_mkngff'')
                         (name (path_of (symlink_target args))))
              = Some (Link (symlink_target args)))"
proof -
  have none: "snd (build_rows common pp pn es) = None" for common pp pn
    using assms(6) by (rule build_rows_no_descriptor)
  obtain rows where rows: "build_rows (str_path (parent (path_of (symlink_target args))))
      prefix_path prefix_name es = (rows, None)"
    using none [of "str_path (parent (path_of (symlink_target args)))" prefix_path prefix_name]
    by (metis prod.collapse)
  have run: "sql srv args fs = (Inl TypeError, [], fs1)"
  proof (cases "symlink_repo args")
    case None
    with assms(4) have "fs1 = fs" by simp
    with None assms(1,2,3,5) rows show ?thesis
      unfolding sql_def Let_def by simp
  next
    case (Some repo)
    show ?thesis
    proof (cases "repo = []")
      case True
      with Some assms(4) have "fs1 = fs" by simp
      with Some True assms(1,2,3,5) rows show ?thesis
        unfolding sql_def Let_def by simp
    next
      case False
      with Some assms(4)
      have "create_symlink fs repo prefix (path_of (symlink_target args))
              (symlink_target args) = (Inr (), fs1)"
        by simp
      with Some False assms(1,2,3,5) rows show ?thesis
        unfolding sql_def Let_def by simp
    qed
  qed
  have same: "symlink_repo args = None \<or> symlink_repo args = Some [] \<longrightarrow> fs1 = fs"
    using assms(4) by (auto split: option.splits)
  have made: "os_path_isdir fs1 (os_path_join repo prefix @ ''_mkngff'')
          \<and> lstat fs1 (os_path_join (os_path_join repo prefix @ ''_mkngff'')
                         (name (path_of (symlink_target args))))
              = Some (Link (symlink_target args))"
    if "symlink_repo args = Some repo \<and> repo \<noteq> []" for repo
  proof -
    from that assms(4)
    have "create_symlink fs repo prefix (path_of (symlink_target args))
            (symlink_target args) = (Inr (), fs1)"
      by simp
    then show ?thesis by (rule create_symlink_made)
  qed
  from run same made show ?thesis
    by blast
qed

theorem sql_no_descriptor_witness:
  "sql (server1 ''base/xyz'' [(''h'', True)]) (sql_args1 (Some ''/repo''))
     (fs_with scenario_tree) = (Inl TypeError, [], fs_mirrored scenario_tree)
   \<and> os_path_isdir (fs_mirrored scenario_tree) ''/repo/base/xyz_mkngff''
   \<and> lstat (fs_mirrored scenario_tree) ''/repo/base/xyz_mkngff/root''
       = Some (Link ''/data/root'')
   \<and> lstat (fs_with scenario_tree) ''/repo/base/xyz_mkngff'' = None"
proof -
  let ?srv = "server1 ''base/xyz'' [(''h'', True)]"
  let ?args = "sql_args1 (Some ''/repo'')"
  have a: "get_prefix ?srv (fileset_id ?args) = Inr ''base/xyz''"
    by code_simp
  have b: "rsplit_slash ''base/xyz'' = Some (''base'', ''xyz'')"
    by code_simp
  have c: "os_path_exists (fs_with scenario_tree) (str_path (path_of (symlink_target ?args)))"
    by code_simp
  have made: "create_symlink (fs_with scenario_tree) ''/repo'' ''base/xyz''
         (path_of (symlink_target ?args)) (symlink_target ?args)
       = (Inr (), fs_mirrored scenario_tree)"
    by code_simp
  have d: "case symlink_repo ?args of
           None \<Rightarrow> fs_mirrored scenario_tree = fs_with scenario_tree
         | Some repo \<Rightarrow>
             if repo = [] then fs_mirrored scenario_tree = fs_with scenario_tree
             else create_symlink (fs_with scenario_tree) repo ''base/xyz''
                    (path_of (symlink_target ?args)) (symlink_target ?args)
                  = (Inr (), fs_mirrored scenario_tree)"
    using made by (simp add: sql_args1_def)
  have e: "walk (fs_mirrored scenario_tree) (path_of (symlink_target ?args)) =
             Inr (walk_dir (path_of ''/data/root'') scenario_tree)"
    by code_simp
  have f: "\<forall>e \<in> set (walk_dir (path_of ''/data/root'') scenario_tree).
             fst (snd e) \<noteq> ''.zattrs'' \<and> fst (snd e) \<noteq> ''METADATA.ome.xml''"
    unfolding walk_dir_scenario by simp
  have sd: "os_path_join ''/repo'' ''base/xyz'' @ ''_mkngff'' = ''/repo/base/xyz_mkngff''"
    by code_simp
  have src: "os_path_join ''/repo/base/xyz_mkngff'' (name (path_of ''/data/root''))
               = ''/repo/base/xyz_mkngff/root''"
    by code_simp
  have tg: "symlink_target ?args = ''/data/root''"
    by (simp add: sql_args1_def)
  have rp: "symlink_repo ?args = Some ''/repo'' \<and> ''/repo'' \<noteq> []"
    by (simp add: sql_args1_def)
  have before: "lstat (fs_with scenario_tree) ''/repo/base/xyz_mkngff'' = None"
    by code_simp
  from sql_no_descriptor [OF a b c d e f] rp
  have "sql ?srv ?args (fs_with scenario_tree) = (Inl TypeError, [], fs_mirrored scenario_tree)
     \<and> os_path_isdir (fs_mirrored scenario_tree)
         (os_path_join ''/repo'' ''base/xyz'' @ ''_mkngff'')
     \<and> lstat (fs_mirrored scenario_tree)
         (os_path_join (os_path_join ''/repo'' ''base/xyz'' @ ''_mkngff'')
            (name (path_of (symlink_target ?args))))
         = Some (Link (symlink_target ?args))"
    by blast
  then show ?thesis
    unfolding tg sd src using before by simp
qed

section \<open>The rewriting of the paths\<close>









section \<open>The walk\<close>

lemma parent_child: "parent (child path n) = path"
  by (simp add: parent_def child_def)

lemma name_child: "name (child path n) = n"
  by (simp add: name_def child_def)

lemma extend_Nil: "extend path [] = path"
  by (simp add: extend_def)

lemma extend_child: "extend (child path n) rel = extend path (n # rel)"
  by (simp add: extend_def child_def)

lemma extend_inj: "extend path a = extend path b \<longleftrightarrow> a = b"
  by (simp add: extend_def)

text \<open>
  The entries that stand at \<open>rel\<close> below the walked directory with the name \<open>n\<close> and
  the mime type \<open>m\<close>: the walk reaches \<open>rel\<close> and yields the node named \<open>n\<close> there.
\<close>

lemma yielded_Nil:
  "\<not> (walked [] rel \<and> lookup (Dir []) (rel @ [n]) = Some nd)"
  by (cases rel) auto

lemma yielded_Cons:
  assumes "n0 \<notin> fst ` set rest"
  shows "(\<exists>rel nd. pp = extend path rel \<and> walked ((n0, nd0) # rest) rel
            \<and> lookup (Dir ((n0, nd0) # rest)) (rel @ [n]) = Some nd \<and> mime_of nd = Some m)
     \<longleftrightarrow> (pp = path \<and> n = n0 \<and> mime_of nd0 = Some m)
       \<or> (\<exists>ds. nd0 = Dir ds \<and> entry_exists ds ''.zgroup'' \<and> \<not> entry_exists ds ''.zarray''
             \<and> (\<exists>rel nd. pp = extend (child path n0) rel \<and> walked ds rel
                   \<and> lookup (Dir ds) (rel @ [n]) = Some nd \<and> mime_of nd = Some m))
       \<or> (\<exists>rel nd. pp = extend path rel \<and> walked rest rel
             \<and> lookup (Dir rest) (rel @ [n]) = Some nd \<and> mime_of nd = Some m)"
    (is "?L \<longleftrightarrow> ?A \<or> ?B \<or> ?C")
proof
  assume ?L
  then obtain rel nd where pp: "pp = extend path rel" and w: "walked ((n0, nd0) # rest) rel"
    and l: "lookup (Dir ((n0, nd0) # rest)) (rel @ [n]) = Some nd" and m: "mime_of nd = Some m"
    by blast
  show "?A \<or> ?B \<or> ?C"
  proof (cases rel)
    case Nil
    show ?thesis
    proof (cases "n = n0")
      case True
      with Nil pp l m have ?A by (simp add: extend_Nil)
      then show ?thesis ..
    next
      case False
      with Nil l have "lookup (Dir rest) ([] @ [n]) = Some nd" by simp
      with Nil pp m have ?C
        by (intro exI [of _ "[]"] exI [of _ nd]) simp
      then show ?thesis by blast
    qed
  next
    case (Cons c rel')
    show ?thesis
    proof (cases "c = n0")
      case True
      with Cons w obtain ds where nd0: "nd0 = Dir ds" and g: "entry_exists ds ''.zgroup''"
        and a: "\<not> entry_exists ds ''.zarray''" and w': "walked ds rel'"
        by (auto split: node.splits)
      from True Cons l nd0 have "lookup (Dir ds) (rel' @ [n]) = Some nd" by simp
      with True Cons pp nd0 g a w' m have ?B
        by (auto simp add: extend_child)
      then show ?thesis by blast
    next
      case False
      with Cons w l have "walked rest rel" "lookup (Dir rest) (rel @ [n]) = Some nd"
        by auto
      with pp m have ?C by blast
      then show ?thesis by blast
    qed
  qed
next
  assume "?A \<or> ?B \<or> ?C"
  then consider ?A | ?B | ?C by blast
  then show ?L
  proof cases
    case 1
    then have "pp = extend path [] \<and> walked ((n0, nd0) # rest) []
        \<and> lookup (Dir ((n0, nd0) # rest)) ([] @ [n]) = Some nd0 \<and> mime_of nd0 = Some m"
      by (simp add: extend_Nil)
    then show ?thesis by blast
  next
    case 2
    then obtain ds rel nd where nd0: "nd0 = Dir ds" and g: "entry_exists ds ''.zgroup''"
      and a: "\<not> entry_exists ds ''.zarray''" and pp: "pp = extend (child path n0) rel"
      and w: "walked ds rel" and l: "lookup (Dir ds) (rel @ [n]) = Some nd"
      and m: "mime_of nd = Some m"
      by blast
    then have "pp = extend path (n0 # rel) \<and> walked ((n0, nd0) # rest) (n0 # rel)
        \<and> lookup (Dir ((n0, nd0) # rest)) ((n0 # rel) @ [n]) = Some nd \<and> mime_of nd = Some m"
      by (simp add: extend_child)
    then show ?thesis by blast
  next
    case 3
    then obtain rel nd where pp: "pp = extend path rel" and w: "walked rest rel"
      and l: "lookup (Dir rest) (rel @ [n]) = Some nd" and m: "mime_of nd = Some m"
      by blast
    have "hd (rel @ [n]) \<in> fst ` set rest"
    proof (cases rel)
      case Nil
      with l have "map_of rest n \<noteq> None" by (auto split: option.splits)
      with Nil show ?thesis by (auto simp add: map_of_eq_None_iff)
    next
      case (Cons c rel')
      with w have "map_of rest c \<noteq> None" by (auto split: option.splits)
      with Cons show ?thesis by (auto simp add: map_of_eq_None_iff)
    qed
    with assms have ne: "hd (rel @ [n]) \<noteq> n0" by auto
    have "walked ((n0, nd0) # rest) rel \<and> lookup (Dir ((n0, nd0) # rest)) (rel @ [n]) = Some nd"
      using w l ne by (cases rel) auto
    with pp m show ?thesis by blast
  qed
qed

lemma walk_dir_mem:
  assumes "wf_listing cs"
  shows "(pp, n, m) \<in> set (walk_dir path cs) \<longleftrightarrow>
     (\<exists>rel nd. pp = extend path rel \<and> walked cs rel
        \<and> lookup (Dir cs) (rel @ [n]) = Some nd \<and> mime_of nd = Some m)"
  using assms
proof (induction path cs rule: walk_dir.induct)
  case (1 path)
  show ?case using yielded_Nil by auto
next
  case (2 path n0 rest)
  then have fresh: "n0 \<notin> fst ` set rest" and wf: "wf_listing rest" by auto
  show ?case
    unfolding yielded_Cons [OF fresh] using 2(1) [OF wf]
    by (auto simp add: parent_child name_child)
next
  case (3 path n0 t rest)
  then have fresh: "n0 \<notin> fst ` set rest" and wf: "wf_listing rest" by auto
  show ?case
    unfolding yielded_Cons [OF fresh] using 3(1) [OF wf]
    by (auto simp add: parent_child name_child)
next
  case (4 path n0 ds rest)
  then have fresh: "n0 \<notin> fst ` set rest" and wf: "wf_listing rest" and wfd: "wf_listing ds"
    by auto
  note rest = 4(2) [OF wf]
  show ?case
  proof (cases "entry_exists ds ''.zarray''")
    case True
    show ?thesis
      unfolding yielded_Cons [OF fresh] using rest True
      by (auto simp add: parent_child name_child)
  next
    case False
    show ?thesis
    proof (cases "entry_exists ds ''.zgroup''")
      case g: True
      from 4(1) [OF _ False wfd] g
      have sub: "(pp, n, m) \<in> set (walk_dir (child path n0) ds) \<longleftrightarrow>
        (\<exists>rel nd. pp = extend (child path n0) rel \<and> walked ds rel
           \<and> lookup (Dir ds) (rel @ [n]) = Some nd \<and> mime_of nd = Some m)"
        by simp
      show ?thesis
        unfolding yielded_Cons [OF fresh] using rest sub False g
        by (auto simp add: parent_child name_child)
    next
      case g: False
      show ?thesis
        unfolding yielded_Cons [OF fresh] using rest False g
        by (auto simp add: parent_child name_child)
    qed
  qed
qed

lemma walk_dir_key:
  assumes "wf_listing cs" and "(pp, n, m) \<in> set (walk_dir path cs)"
  shows "\<exists>rel. pp = extend path rel \<and> hd (rel @ [n]) \<in> fst ` set cs"
proof -
  from assms obtain rel nd where pp: "pp = extend path rel" and w: "walked cs rel"
    and l: "lookup (Dir cs) (rel @ [n]) = Some nd"
    unfolding walk_dir_mem [OF assms(1)] by blast
  have "hd (rel @ [n]) \<in> fst ` set cs"
  proof (cases rel)
    case Nil
    with l have "map_of cs n \<noteq> None" by (auto split: option.splits)
    with Nil show ?thesis by (auto simp add: map_of_eq_None_iff)
  next
    case (Cons c rel')
    with w have "map_of cs c \<noteq> None" by (auto split: option.splits)
    with Cons show ?thesis by (auto simp add: map_of_eq_None_iff)
  qed
  with pp show ?thesis by blast
qed

text \<open>No node has two entries in a walk.\<close>

lemma walk_dir_distinct:
  assumes "wf_listing cs"
  shows "distinct (map (\<lambda>e. (fst e, fst (snd e))) (walk_dir path cs))"
  using assms
proof (induction path cs rule: walk_dir.induct)
  case (1 path)
  show ?case by simp
next
  case (2 path n0 rest)
  then have fresh: "n0 \<notin> fst ` set rest" and wf: "wf_listing rest" by auto
  have "(path, n0) \<notin> (\<lambda>e. (fst e, fst (snd e))) ` set (walk_dir path rest)"
  proof
    assume "(path, n0) \<in> (\<lambda>e. (fst e, fst (snd e))) ` set (walk_dir path rest)"
    then obtain m where "(path, n0, m) \<in> set (walk_dir path rest)" by force
    from walk_dir_key [OF wf this] obtain rel where "path = extend path rel"
      and h: "hd (rel @ [n0]) \<in> fst ` set rest"
      by blast
    then have "rel = []" using extend_inj [of path rel "[]"] by (simp add: extend_Nil)
    with h fresh show False by simp
  qed
  with 2(1) [OF wf] show ?case
    by (simp add: parent_child name_child)
next
  case (3 path n0 t rest)
  then have fresh: "n0 \<notin> fst ` set rest" and wf: "wf_listing rest" by auto
  have "(path, n0) \<notin> (\<lambda>e. (fst e, fst (snd e))) ` set (walk_dir path rest)"
  proof
    assume "(path, n0) \<in> (\<lambda>e. (fst e, fst (snd e))) ` set (walk_dir path rest)"
    then obtain m where "(path, n0, m) \<in> set (walk_dir path rest)" by force
    from walk_dir_key [OF wf this] obtain rel where "path = extend path rel"
      and h: "hd (rel @ [n0]) \<in> fst ` set rest"
      by blast
    then have "rel = []" using extend_inj [of path rel "[]"] by (simp add: extend_Nil)
    with h fresh show False by simp
  qed
  with 3(1) [OF wf] show ?case
    by (simp add: parent_child name_child)
next
  case (4 path n0 ds rest)
  then have fresh: "n0 \<notin> fst ` set rest" and wf: "wf_listing rest" and wfd: "wf_listing ds"
    by auto
  let ?key = "\<lambda>e :: entry. (fst e, fst (snd e))"
  have rest: "distinct (map ?key (walk_dir path rest))"
    by (rule 4(2) [OF wf])
  have head_rest: "(path, n0) \<notin> ?key ` set (walk_dir path rest)"
  proof
    assume "(path, n0) \<in> ?key ` set (walk_dir path rest)"
    then obtain m where "(path, n0, m) \<in> set (walk_dir path rest)" by force
    from walk_dir_key [OF wf this] obtain rel where "path = extend path rel"
      and h: "hd (rel @ [n0]) \<in> fst ` set rest"
      by blast
    then have "rel = []" using extend_inj [of path rel "[]"] by (simp add: extend_Nil)
    with h fresh show False by simp
  qed
  have head_sub: "(path, n0) \<notin> ?key ` set (walk_dir (child path n0) ds)"
  proof
    assume "(path, n0) \<in> ?key ` set (walk_dir (child path n0) ds)"
    then obtain m where "(path, n0, m) \<in> set (walk_dir (child path n0) ds)" by force
    from walk_dir_key [OF wfd this] obtain rel where "path = extend (child path n0) rel"
      by blast
    then show False
      using extend_inj [of path "n0 # rel" "[]"] by (simp add: extend_Nil extend_child)
  qed
  have sub_rest: "?key ` set (walk_dir (child path n0) ds) \<inter> ?key ` set (walk_dir path rest) = {}"
  proof (rule ccontr)
    assume "?key ` set (walk_dir (child path n0) ds) \<inter> ?key ` set (walk_dir path rest) \<noteq> {}"
    then obtain pp n m m' where a: "(pp, n, m) \<in> set (walk_dir (child path n0) ds)"
      and b: "(pp, n, m') \<in> set (walk_dir path rest)"
      by force
    from walk_dir_key [OF wfd a] obtain rel where p1: "pp = extend path (n0 # rel)"
      by (auto simp add: extend_child)
    from walk_dir_key [OF wf b] obtain rel' where p2: "pp = extend path rel'"
      and h: "hd (rel' @ [n]) \<in> fst ` set rest"
      by blast
    from p1 p2 have "rel' = n0 # rel" using extend_inj [of path rel' "n0 # rel"] by simp
    with h fresh show False by simp
  qed
  show ?case
  proof (cases "entry_exists ds ''.zarray''")
    case True
    with rest head_rest show ?thesis
      by (simp add: parent_child name_child)
  next
    case False
    show ?thesis
    proof (cases "entry_exists ds ''.zgroup''")
      case g: True
      from 4(1) [OF _ False wfd] g have "distinct (map ?key (walk_dir (child path n0) ds))"
        by simp
      with rest head_rest head_sub sub_rest False g show ?thesis
        by (simp add: parent_child name_child)
    next
      case g: False
      with rest False show ?thesis
        by simp
    qed
  qed
qed

lemma filter_key_single:
  "distinct (map f xs) \<Longrightarrow> x \<in> set xs \<Longrightarrow> filter (\<lambda>e. f e = f x) xs = [x]"
proof (induction xs)
  case Nil
  then show ?case by simp
next
  case (Cons a xs)
  show ?case
  proof (cases "a = x")
    case True
    with Cons(2) have "f x \<notin> f ` set xs" by simp
    then have "\<forall>e \<in> set xs. f e \<noteq> f x" by (metis imageI)
    then have "filter (\<lambda>e. f e = f x) xs = []" by (simp add: filter_empty_conv)
    with True show ?thesis by simp
  next
    case False
    with Cons(3) have x: "x \<in> set xs" by simp
    from Cons(2) have "f a \<notin> f ` set xs" by simp
    with x have "f a \<noteq> f x" by (metis imageI)
    with Cons(1) [OF _ x] Cons(2) show ?thesis by simp
  qed
qed

text \<open>Below a directory that the walk reaches, every directory on the way is a group
  and not an array.\<close>

lemma walked_on_the_way:
  "walked cs (q @ a # r) \<Longrightarrow>
     \<exists>ds. lookup (Dir cs) (q @ [a]) = Some (Dir ds)
        \<and> entry_exists ds ''.zgroup'' \<and> \<not> entry_exists ds ''.zarray''"
proof (induction q arbitrary: cs)
  case Nil
  then show ?case by (auto split: option.splits node.splits)
next
  case (Cons c q)
  then obtain ds where "map_of cs c = Some (Dir ds)" and "walked ds (q @ a # r)"
    by (auto split: option.splits node.splits)
  with Cons(1) [of ds] show ?case by simp
qed

text \<open>
  C1 does not hold as stated. The walk never looks at the markers of its root: for a root
  that holds \<^verbatim>\<open>.zarray\<close> it yields the entries of the root, here the chunk \<^verbatim>\<open>0\<close>. And
  an array directory that the walk does not reach, here \<^verbatim>\<open>c/arr\<close> below a directory
  \<^verbatim>\<open>c\<close> without a marker, has no entry at all.
\<close>

theorem walk_array_counterexample:
  "entry_exists [(''.zarray'', File), (''0'', File)] ''.zarray''
   \<and> (path_of ''/data/a.zarr'', ''0'', ''application/octet-stream'')
       \<in> set (walk_dir (path_of ''/data/a.zarr'') [(''.zarray'', File), (''0'', File)])
   \<and> lookup (Dir [(''c'', Dir [(''arr'', Dir [(''.zarray'', File)])])]) [''c'', ''arr'']
       = Some (Dir [(''.zarray'', File)])
   \<and> walk_dir (path_of ''/data/b.zarr'') [(''c'', Dir [(''arr'', Dir [(''.zarray'', File)])])]
       = []"
  by code_simp

text \<open>
  C1, amended. In a tree whose directories list no name twice, and for the directories
  below the walked root: the walk yields no entry for a directory that holds neither
  \<^verbatim>\<open>.zarray\<close> nor \<^verbatim>\<open>.zgroup\<close>; it yields no entry for anything below a directory that
  holds \<^verbatim>\<open>.zarray\<close>; and an array directory that it reaches, every directory between
  the root and it holding \<^verbatim>\<open>.zgroup\<close> and no \<^verbatim>\<open>.zarray\<close>, has exactly one entry, with
  the mime type \<^verbatim>\<open>Directory\<close>.
\<close>

theorem walk_below_root:
  assumes "wf_listing cs"
  shows "(\<forall>rel n ds m.
            lookup (Dir cs) (rel @ [n]) = Some (Dir ds)
            \<and> \<not> entry_exists ds ''.zarray'' \<and> \<not> entry_exists ds ''.zgroup''
            \<longrightarrow> (extend path rel, n, m) \<notin> set (walk_dir path cs))
     \<and> (\<forall>q a ds r n m.
            lookup (Dir cs) (q @ [a]) = Some (Dir ds) \<and> entry_exists ds ''.zarray''
            \<longrightarrow> (extend path (q @ a # r), n, m) \<notin> set (walk_dir path cs))
     \<and> (\<forall>rel n ds.
            walked cs rel \<and> lookup (Dir cs) (rel @ [n]) = Some (Dir ds)
            \<and> entry_exists ds ''.zarray''
            \<longrightarrow> entries_for (walk_dir path cs) (extend path rel) n
                  = [(extend path rel, n, ''Directory'')])"
proof (intro conjI allI impI)
  fix rel n ds m
  assume a: "lookup (Dir cs) (rel @ [n]) = Some (Dir ds)
    \<and> \<not> entry_exists ds ''.zarray'' \<and> \<not> entry_exists ds ''.zgroup''"
  show "(extend path rel, n, m) \<notin> set (walk_dir path cs)"
  proof
    assume "(extend path rel, n, m) \<in> set (walk_dir path cs)"
    then obtain rel' nd where "extend path rel = extend path rel'"
      and l: "lookup (Dir cs) (rel' @ [n]) = Some nd" and m: "mime_of nd = Some m"
      unfolding walk_dir_mem [OF assms] by blast
    then have "rel' = rel" by (simp add: extend_inj)
    with l a have "nd = Dir ds" by simp
    with m a show False by simp
  qed
next
  fix q a ds r n m
  assume a: "lookup (Dir cs) (q @ [a]) = Some (Dir ds) \<and> entry_exists ds ''.zarray''"
  show "(extend path (q @ a # r), n, m) \<notin> set (walk_dir path cs)"
  proof
    assume "(extend path (q @ a # r), n, m) \<in> set (walk_dir path cs)"
    then obtain rel' where "extend path (q @ a # r) = extend path rel'" and w: "walked cs rel'"
      unfolding walk_dir_mem [OF assms] by blast
    then have "rel' = q @ a # r" by (simp add: extend_inj)
    with w walked_on_the_way [of cs q a r] a show False by auto
  qed
next
  fix rel n ds
  assume a: "walked cs rel \<and> lookup (Dir cs) (rel @ [n]) = Some (Dir ds)
    \<and> entry_exists ds ''.zarray''"
  let ?e = "(extend path rel, n, ''Directory'')"
  have "mime_of (Dir ds) = Some ''Directory''"
    using a by simp
  with a have mem: "?e \<in> set (walk_dir path cs)"
    unfolding walk_dir_mem [OF assms] by blast
  have "entries_for (walk_dir path cs) (extend path rel) n
          = filter (\<lambda>e. (fst e, fst (snd e)) = (fst ?e, fst (snd ?e))) (walk_dir path cs)"
    by (simp add: entries_for_def)
  also have "\<dots> = [?e]"
    by (rule filter_key_single [OF walk_dir_distinct [OF assms] mem])
  finally show "entries_for (walk_dir path cs) (extend path rel) n = [?e]" .
qed

theorem walk_below_root_witness:
  "wf_listing scenario_tree
   \<and> walked scenario_tree [''g'']
   \<and> lookup (Dir scenario_tree) [''g'', ''arr'']
       = Some (Dir [(''.zarray'', File), (''0'', File), (''1'', File)])
   \<and> entries_for (walk_dir (path_of ''/data/root'') scenario_tree)
       (extend (path_of ''/data/root'') [''g'']) ''arr''
       = [(extend (path_of ''/data/root'') [''g''], ''arr'', ''Directory'')]
   \<and> (extend (path_of ''/data/root'') [''g'', ''arr''], ''0'', ''application/octet-stream'')
       \<notin> set (walk_dir (path_of ''/data/root'') scenario_tree)"
proof -
  have wf: "wf_listing scenario_tree"
    by code_simp
  have w: "walked scenario_tree [''g'']"
    by code_simp
  have l: "lookup (Dir scenario_tree) ([''g''] @ [''arr''])
             = Some (Dir [(''.zarray'', File), (''0'', File), (''1'', File)])"
    by code_simp
  have a: "entry_exists [(''.zarray'', File), (''0'', File), (''1'', File)] ''.zarray''"
    by code_simp
  note inst = walk_below_root [OF wf, of "path_of ''/data/root''"]
  from inst w l a
  have one: "entries_for (walk_dir (path_of ''/data/root'') scenario_tree)
       (extend (path_of ''/data/root'') [''g'']) ''arr''
       = [(extend (path_of ''/data/root'') [''g''], ''arr'', ''Directory'')]"
    by blast
  from inst l a
  have "(extend (path_of ''/data/root'') ([''g''] @ ''arr'' # []), ''0'',
          ''application/octet-stream'') \<notin> set (walk_dir (path_of ''/data/root'') scenario_tree)"
    by blast
  with wf w l one show ?thesis
    by simp
qed

end
